theory Spec2Isabelle
  imports Complex_Main
begin

section \<open>The input sink and the exceptions of the three controllers\<close>

text \<open>
  The three programs (\<^verbatim>\<open>webcam_controller.py\<close>, \<^verbatim>\<open>webcam_keyboard.py\<close>,
  \<^verbatim>\<open>webcam_virtual_keyboard.py\<close>) deliver their actions through calls to
  \<^verbatim>\<open>pyautogui\<close>. A call either returns or raises. The calls that returned are
  kept, in order, in the field \<open>sent\<close> of the state: it is the trace of the events that
  reached the operating system.

  Clock readings (\<^verbatim>\<open>time.time()\<close>) and pixel distances are Python floats; they are
  modelled as real numbers, so the comparisons of the source are exact here.
\<close>

datatype sink_call =
    MoveTo int int
  | MouseDown
  | MouseUp
  | Click
  | RightClick
  | Press string
  | Hotkey string string
  | Typewrite string

text \<open>
  \<open>FailSafeException\<close> is \<^verbatim>\<open>pyautogui.FailSafeException\<close>, \<open>KeyError\<close> is Python's,
  \<open>OtherException\<close> stands for every other subclass of \<^verbatim>\<open>Exception\<close> a call may raise.
\<close>

datatype exn = FailSafeException | KeyError | OtherException

datatype outcome = Returns | Raises exn

record world =
  sent :: "sink_call list"

text \<open>
  A statement that may raise yields the exception (if any) and the state at that moment.
  \<open>andthen\<close> is sequential composition: what follows a raising statement is skipped.
\<close>

definition andthen :: "exn option \<times> 's \<Rightarrow> ('s \<Rightarrow> exn option \<times> 's) \<Rightarrow> exn option \<times> 's" where
  "andthen r k = (case r of (None, s) \<Rightarrow> k s | (Some e, s) \<Rightarrow> (Some e, s))"

text \<open>
  An unguarded call \<^verbatim>\<open>pyautogui.c(); on_ok\<close>: the statements \<open>on_ok\<close> after the call
  run only when it returned.
\<close>

definition sink_do ::
  "(sink_call \<Rightarrow> outcome) \<Rightarrow> sink_call \<Rightarrow> ('a world_scheme \<Rightarrow> 'a world_scheme) \<Rightarrow>
   'a world_scheme \<Rightarrow> exn option \<times> 'a world_scheme" where
  "sink_do sk c on_ok s =
     (case sk c of
        Returns \<Rightarrow> (None, on_ok (s\<lparr>sent := sent s @ [c]\<rparr>))
      | Raises e \<Rightarrow> (Some e, s))"

text \<open>
  \<^verbatim>\<open>try: pyautogui.c(); on_ok   except pyautogui.FailSafeException: pass\<close>:
  only that one exception class is caught, any other exception leaves the block.
\<close>

definition try_failsafe ::
  "(sink_call \<Rightarrow> outcome) \<Rightarrow> sink_call \<Rightarrow> ('a world_scheme \<Rightarrow> 'a world_scheme) \<Rightarrow>
   'a world_scheme \<Rightarrow> exn option \<times> 'a world_scheme" where
  "try_failsafe sk c on_ok s =
     (case sink_do sk c on_ok s of
        (None, s') \<Rightarrow> (None, s')
      | (Some e, s') \<Rightarrow> (if e = FailSafeException then (None, s') else (Some e, s')))"

text \<open>
  \<^verbatim>\<open>try: ...   except Exception as e: print(...)\<close>: every exception is caught.
\<close>

definition try_exception :: "exn option \<times> 's \<Rightarrow> exn option \<times> 's" where
  "try_exception r = (None, snd r)"

text \<open>\<^verbatim>\<open>int(x)\<close> of a float truncates towards zero.\<close>

definition py_int :: "real \<Rightarrow> int" where
  "py_int x = (if 0 \<le> x then \<lfloor>x\<rfloor> else \<lceil>x\<rceil>)"

text \<open>\<^verbatim>\<open>deque(maxlen=n).append(x)\<close>: the oldest entry is dropped on overflow.\<close>

definition deque_append :: "nat \<Rightarrow> 'a \<Rightarrow> 'a list \<Rightarrow> 'a list" where
  "deque_append maxlen x xs = (let ys = xs @ [x] in drop (length ys - maxlen) ys)"


section \<open>webcam_controller.py: pointer control with click, drag and right-click\<close>

text \<open>
  The fields of \<^verbatim>\<open>WebcamController\<close> that the per-frame code reads or writes. The
  thresholds are assigned once in \<^verbatim>\<open>__init__\<close> and never again, so they are constants.
  (\<^verbatim>\<open>is_clicking\<close> is assigned in \<^verbatim>\<open>__init__\<close> and never used.)
\<close>

record controller = world +
  mouse_control_enabled :: bool
  click_enabled :: bool
  drag_mode :: bool
  last_click_time :: real
  pinch_active :: bool
  pinch_started_at :: real
  right_pinch_active :: bool
  right_pinch_started_at :: real
  last_right_click_time :: real
  cursor_history :: "(int \<times> int) list"

definition click_debounce :: real where "click_debounce = 5 / 10"
definition drag_hold_threshold :: real where "drag_hold_threshold = 35 / 100"
definition click_max_duration :: real where "click_max_duration = 25 / 100"
definition right_click_hold_threshold :: real where "right_click_hold_threshold = 15 / 100"
definition right_click_debounce :: real where "right_click_debounce = 8 / 10"
definition pinch_on :: real where "pinch_on = 35"
definition pinch_off :: real where "pinch_off = 45"
definition right_on :: real where "right_on = 35"
definition right_off :: real where "right_off = 45"

definition init_controller :: controller where
  "init_controller =
     \<lparr> sent = [],
       mouse_control_enabled = True,
       click_enabled = True,
       drag_mode = False,
       last_click_time = 0,
       pinch_active = False,
       pinch_started_at = 0,
       right_pinch_active = False,
       right_pinch_started_at = 0,
       last_right_click_time = 0,
       cursor_history = [] \<rparr>"

text \<open>
  What one call of \<^verbatim>\<open>handle_mouse_control\<close> receives: the dictionary
  \<^verbatim>\<open>gesture_data\<close>, the reading \<open>now\<close> of \<^verbatim>\<open>time.time()\<close> taken at its first line,
  and the behaviour \<open>sink\<close> of \<^verbatim>\<open>pyautogui\<close> during the call.
\<close>

record frame =
  now :: real
  sink :: "sink_call \<Rightarrow> outcome"
  cursor_pos :: "int \<times> int"
  index_extended :: bool
  thumb_index_distance :: real
  thumb_middle_distance :: real

text \<open>
  \<^verbatim>\<open>np.linspace(a, b, n)\<close> for \<open>n > 1\<close>. The weighted average of
  \<^verbatim>\<open>smooth_cursor_position\<close> is computed over the reals here; the source computes it in
  doubles, whose rounding can put the value just below an integer before \<^verbatim>\<open>int\<close>
  truncates it, so the arguments of \<open>MoveTo\<close> may differ by one pixel from the source's.
\<close>

definition linspace :: "real \<Rightarrow> real \<Rightarrow> nat \<Rightarrow> real list" where
  "linspace a b n = map (\<lambda>i. a + real i * ((b - a) / real (n - 1))) [0..<n]"

definition smooth_cursor_position :: "int \<times> int \<Rightarrow> controller \<Rightarrow> (int \<times> int) \<times> controller" where
  "smooth_cursor_position p s =
     (let h = deque_append 5 p (cursor_history s);
          s' = s\<lparr>cursor_history := h\<rparr>
      in if 1 < length h then
           (let w = linspace (1 / 10) 1 (length h);
                weights = map (\<lambda>v. v / sum_list w) w;
                smooth_x = sum_list (map (\<lambda>(pos, weight). real_of_int (fst pos) * weight) (zip h weights));
                smooth_y = sum_list (map (\<lambda>(pos, weight). real_of_int (snd pos) * weight) (zip h weights))
            in ((py_int smooth_x, py_int smooth_y), s'))
         else (p, s'))"

text \<open>The three blocks of \<^verbatim>\<open>handle_mouse_control\<close>, in the order of the source.\<close>

definition move_cursor :: "frame \<Rightarrow> controller \<Rightarrow> exn option \<times> controller" where
  "move_cursor f s =
     (if mouse_control_enabled s \<and> index_extended f then
        (case smooth_cursor_position (cursor_pos f) s of
           ((smooth_x, smooth_y), s') \<Rightarrow> try_failsafe (sink f) (MoveTo smooth_x smooth_y) id s')
      else (None, s))"

definition left_click_drag :: "frame \<Rightarrow> controller \<Rightarrow> exn option \<times> controller" where
  "left_click_drag f s =
     (if click_enabled s then
        if pinch_active s then
          if pinch_off < thumb_index_distance f \<or> \<not> index_extended f then
            andthen
              (if drag_mode s then
                 andthen (try_failsafe (sink f) MouseUp id s)
                   (\<lambda>s. (None, s\<lparr>drag_mode := False\<rparr>))
               else if now f - pinch_started_at s \<le> click_max_duration
                       \<and> click_debounce < now f - last_click_time s then
                 try_failsafe (sink f) Click (\<lambda>s. s\<lparr>last_click_time := now f\<rparr>) s
               else (None, s))
              (\<lambda>s. (None, s\<lparr>pinch_active := False\<rparr>))
          else if \<not> drag_mode s \<and> drag_hold_threshold \<le> now f - pinch_started_at s then
            andthen (try_failsafe (sink f) MouseDown id s)
              (\<lambda>s. (None, s\<lparr>drag_mode := True\<rparr>))
          else (None, s)
        else if index_extended f \<and> thumb_index_distance f < pinch_on then
          (None, s\<lparr>pinch_active := True, pinch_started_at := now f\<rparr>)
        else (None, s)
      else (None, s))"

definition right_click :: "frame \<Rightarrow> controller \<Rightarrow> exn option \<times> controller" where
  "right_click f s =
     (if click_enabled s \<and> right_click_debounce < now f - last_right_click_time s then
        if right_pinch_active s then
          if right_off < thumb_middle_distance f then
            andthen
              (if right_click_hold_threshold \<le> now f - right_pinch_started_at s
                  \<and> \<not> drag_mode s \<and> \<not> pinch_active s then
                 try_failsafe (sink f) RightClick (\<lambda>s. s\<lparr>last_right_click_time := now f\<rparr>) s
               else (None, s))
              (\<lambda>s. (None, s\<lparr>right_pinch_active := False\<rparr>))
          else (None, s)
        else if \<not> pinch_active s \<and> thumb_middle_distance f < right_on then
          (None, s\<lparr>right_pinch_active := True, right_pinch_started_at := now f\<rparr>)
        else (None, s)
      else (None, s))"

definition handle_mouse_control :: "frame \<Rightarrow> controller \<Rightarrow> exn option \<times> controller" where
  "handle_mouse_control f s = andthen (andthen (move_cursor f s) (left_click_drag f)) (right_click f)"

text \<open>
  Successive calls of \<^verbatim>\<open>handle_mouse_control\<close>, one per frame with a hand; an
  exception leaves \<^verbatim>\<open>run\<close>'s loop, so the remaining frames are not processed.
\<close>

fun run_frames :: "frame list \<Rightarrow> controller \<Rightarrow> exn option \<times> controller" where
  "run_frames [] s = (None, s)"
| "run_frames (f # fs) s = andthen (handle_mouse_control f s) (run_frames fs)"

text \<open>
  The rest of one iteration of the loop of \<^verbatim>\<open>WebcamController.run\<close>. An iteration reads
  a camera frame (\<open>ret\<close>), the gesture data of the detected hands (only the first is
  processed) and a key code. Recalibration (the space key) releases a drag with an
  unguarded \<^verbatim>\<open>pyautogui.mouseUp()\<close>.
\<close>

record loop_input =
  ret :: bool
  hands :: "frame list"
  key :: nat
  key_sink :: "sink_call \<Rightarrow> outcome"

datatype 's flow = Goes_on 's | Broke 's | Raised exn 's

definition recalibrate :: "(sink_call \<Rightarrow> outcome) \<Rightarrow> controller \<Rightarrow> exn option \<times> controller" where
  "recalibrate sk s =
     andthen
       (if drag_mode s then
          andthen (sink_do sk MouseUp id (s\<lparr>cursor_history := []\<rparr>))
            (\<lambda>s. (None, s\<lparr>drag_mode := False\<rparr>))
        else (None, s\<lparr>cursor_history := []\<rparr>))
       (\<lambda>s. (None, s\<lparr>pinch_active := False, right_pinch_active := False\<rparr>))"

definition loop_body :: "loop_input \<Rightarrow> controller \<Rightarrow> controller flow" where
  "loop_body i s =
     (if \<not> ret i then Broke s
      else
        (case (case hands i of [] \<Rightarrow> (None, s) | h # _ \<Rightarrow> handle_mouse_control h s) of
           (Some e, s1) \<Rightarrow> Raised e s1
         | (None, s1) \<Rightarrow>
             if key i = 113 then Broke s1
             else if key i = 109 then Goes_on (s1\<lparr>mouse_control_enabled := \<not> mouse_control_enabled s1\<rparr>)
             else if key i = 99 then Goes_on (s1\<lparr>click_enabled := \<not> click_enabled s1\<rparr>)
             else if key i = 32 then
               (case recalibrate (key_sink i) s1 of
                  (None, s2) \<Rightarrow> Goes_on s2
                | (Some e, s2) \<Rightarrow> Raised e s2)
             else Goes_on s1))"

text \<open>The states the controller can be in at the start of an iteration.\<close>

inductive reachable :: "controller \<Rightarrow> bool" where
  reachable_init: "reachable init_controller"
| reachable_step: "reachable s \<Longrightarrow> loop_body i s = Goes_on s' \<Longrightarrow> reachable s'"



section \<open>Python strings, restricted to ASCII\<close>

text \<open>
  Every label, action and symbol of the two keyboards is an ASCII string; the string
  methods below are Python's on such strings.
\<close>

definition ascii_uppercase :: string where "ascii_uppercase = ''ABCDEFGHIJKLMNOPQRSTUVWXYZ''"
definition ascii_lowercase :: string where "ascii_lowercase = ''abcdefghijklmnopqrstuvwxyz''"
definition digits :: string where "digits = ''0123456789''"

definition upper :: "string \<Rightarrow> string" where
  "upper = map (\<lambda>c. case map_of (zip ascii_lowercase ascii_uppercase) c of Some d \<Rightarrow> d | None \<Rightarrow> c)"

definition lower :: "string \<Rightarrow> string" where
  "lower = map (\<lambda>c. case map_of (zip ascii_uppercase ascii_lowercase) c of Some d \<Rightarrow> d | None \<Rightarrow> c)"

definition isalpha :: "string \<Rightarrow> bool" where
  "isalpha w = (w \<noteq> [] \<and> list_all (\<lambda>c. c \<in> set (ascii_uppercase @ ascii_lowercase)) w)"

definition isdigit :: "string \<Rightarrow> bool" where
  "isdigit w = (w \<noteq> [] \<and> list_all (\<lambda>c. c \<in> set digits) w)"

definition ascii :: "string \<Rightarrow> bool" where
  "ascii w = list_all (\<lambda>c. of_char c < (128::nat)) w"

text \<open>The truth value of an optional string: \<^verbatim>\<open>None\<close> and the empty string are false.\<close>

definition truthy :: "string option \<Rightarrow> bool" where
  "truthy z = (case z of None \<Rightarrow> False | Some w \<Rightarrow> w \<noteq> [])"


section \<open>webcam_keyboard.py: typing by finger count and zone\<close>

text \<open>
  A hand is its landmarks: \<open>h n\<close> is the pair \<open>(x, y)\<close> of landmark number \<open>n\<close>, in
  normalised image coordinates. (A detected hand is never an empty object, so the first
  test of \<^verbatim>\<open>count_fingers\<close>, \<^verbatim>\<open>if not landmarks\<close>, is always false.)
\<close>

type_synonym hand = "nat \<Rightarrow> real \<times> real"

definition count_fingers :: "hand \<Rightarrow> nat" where
  "count_fingers landmarks =
     (let finger_tips = [4, 8, 12, 16, 20];
          finger_pips = [3, 6, 10, 14, 18]
      in (if fst (landmarks (finger_tips ! 0)) > fst (landmarks (finger_pips ! 0)) then 1 else 0)
         + length (filter (\<lambda>i. snd (landmarks (finger_tips ! i)) < snd (landmarks (finger_pips ! i)))
                     [1..<5]))"

text \<open>The zones, in the insertion order of the dictionary: \<open>(x_min, x_max, y_min, y_max)\<close>.\<close>

definition zones :: "(string \<times> real \<times> real \<times> real \<times> real) list" where
  "zones =
     [ (''top_left'',   (0, 33 / 100, 0, 33 / 100)),
       (''top_center'', (33 / 100, 66 / 100, 0, 33 / 100)),
       (''top_right'',  (66 / 100, 1, 0, 33 / 100)),
       (''mid_left'',   (0, 33 / 100, 33 / 100, 66 / 100)),
       (''mid_center'', (33 / 100, 66 / 100, 33 / 100, 66 / 100)),
       (''mid_right'',  (66 / 100, 1, 33 / 100, 66 / 100)),
       (''bot_left'',   (0, 33 / 100, 66 / 100, 1)),
       (''bot_center'', (33 / 100, 66 / 100, 66 / 100, 1)),
       (''bot_right'',  (66 / 100, 1, 66 / 100, 1)) ]"

definition get_hand_zone :: "hand \<Rightarrow> string option" where
  "get_hand_zone landmarks =
     (let (x, y) = landmarks 8
      in map_option fst
           (find (\<lambda>(zone_name, x_min, x_max, y_min, y_max).
                     x_min \<le> x \<and> x \<le> x_max \<and> y_min \<le> y \<and> y \<le> y_max) zones))"

text \<open>\<^verbatim>\<open>zone_names.index(zone_name)\<close>, and 0 on \<^verbatim>\<open>ValueError\<close>.\<close>

fun index_of :: "'a list \<Rightarrow> 'a \<Rightarrow> nat option" where
  "index_of [] x = None"
| "index_of (y # ys) x = (if y = x then Some 0 else map_option Suc (index_of ys x))"

definition get_zone_index :: "string \<Rightarrow> nat" where
  "get_zone_index zone_name =
     (case index_of [''top_left'', ''top_center'', ''top_right'',
                     ''mid_left'', ''mid_center'', ''mid_right'',
                     ''bot_left'', ''bot_center'', ''bot_right''] zone_name of
        Some n \<Rightarrow> n
      | None \<Rightarrow> 0)"

text \<open>
  \<^verbatim>\<open>setup_character_mapping\<close>: a dictionary from mode name to a dictionary from finger
  count to the symbols of the nine zones. It has the three keys LETTERS, NUMBERS, ACTIONS.
  The symbols of LETTERS and NUMBERS are single characters.
\<close>

text \<open>The list of the one-character strings of a string.\<close>

definition singles :: "string \<Rightarrow> string list" where
  "singles w = map (\<lambda>c. [c]) w"

definition character_maps :: "(string \<times> (nat \<times> string list) list) list" where
  "character_maps =
     [ (''LETTERS'',
          [ (1, singles ''abcdefghi''),
            (2, singles ''jklmnopqr''),
            (3, singles ''stuvwxyz.''),
            (4, singles ''ABCDEFGHI''),
            (5, singles ''JKLMNOPQR'') ]),
       (''NUMBERS'',
          [ (1, singles ''123456789''),
            (2, singles ''0+-*/=()%''),
            (3, singles ''!@#$&?,;:''),
            (4, singles ''<>[]{}|'' @ [[CHR 0x5C], [CHR 0x22]]),
            (5, [''~'', [CHR 0x60], ''^'', ''_'', [CHR 0x27], ''.'', '','', ''!'', ''?'']) ]),
       (''ACTIONS'',
          [ (1, [''ENTER'', ''TAB'', ''ESC'', ''DELETE'', ''HOME'', ''END'', ''UP'', ''DOWN'', ''LEFT'']),
            (2, [''RIGHT'', ''PGUP'', ''PGDN'', ''F1'', ''F2'', ''F3'', ''F4'', ''F5'', ''F6'']),
            (3, [''F7'', ''F8'', ''F9'', ''F10'', ''F11'', ''F12'', ''CTRL'', ''ALT'', ''SHIFT'']),
            (4, [''COPY'', ''PASTE'', ''CUT'', ''UNDO'', ''REDO'', ''SAVE'', ''FIND'', ''REPLACE'', ''SELECT'']),
            (5, [''CAPS'', ''NUM'', ''SCROLL'', ''PAUSE'', ''PRINT'', ''INSERT'', ''MENU'', ''WIN'', ''CMD'']) ]) ]"

definition modes :: "string list" where
  "modes = [''LETTERS'', ''NUMBERS'', ''SYMBOLS'', ''ACTIONS'']"

definition gesture_debounce :: real where "gesture_debounce = 1"
definition required_confirmation :: nat where "required_confirmation = 8"

text \<open>
  The fields of \<^verbatim>\<open>WebcamKeyboard\<close>. \<open>actions\<close> is the output of the statement
  \<^verbatim>\<open>print(f"Action: {action}")\<close>: the actions executed so far, in order.
\<close>

record keyboard = world +
  typing_enabled :: bool
  current_text :: string
  last_gesture_time :: real
  finger_count_history :: "nat list"
  last_finger_count :: nat
  gesture_confirmed :: bool
  confirmation_frames :: nat
  current_zone :: "string option"
  zone_history :: "string option list"
  current_mode :: string
  mode_index :: nat
  actions :: "string list"

definition init_keyboard :: keyboard where
  "init_keyboard =
     \<lparr> sent = [],
       typing_enabled = True,
       current_text = [],
       last_gesture_time = 0,
       finger_count_history = [],
       last_finger_count = 0,
       gesture_confirmed = False,
       confirmation_frames = 0,
       current_zone = None,
       zone_history = [],
       current_mode = ''LETTERS'',
       mode_index = 0,
       actions = [] \<rparr>"

text \<open>
  \<^verbatim>\<open>process_gesture\<close> reads the clock (\<open>current_time\<close>) and the state and changes
  nothing. The subscript \<^verbatim>\<open>self.character_maps[self.current_mode]\<close> raises
  \<^verbatim>\<open>KeyError\<close> for a mode without a table.
\<close>

definition process_gesture :: "real \<Rightarrow> nat \<Rightarrow> string option \<Rightarrow> keyboard \<Rightarrow> exn + string option" where
  "process_gesture current_time finger_count zone s =
     (if current_time - last_gesture_time s < gesture_debounce then Inr None
      else if \<not> truthy zone then Inr None
      else if finger_count = 0 then Inr (Some '' '')
      else if finger_count = 5 \<and> zone \<in> set [Some ''top_left'', Some ''top_center'', Some ''top_right'']
        then Inr (Some ''BACKSPACE'')
      else
        (case map_of character_maps (current_mode s) of
           None \<Rightarrow> Inl KeyError
         | Some table \<Rightarrow>
             (case map_of table finger_count of
                None \<Rightarrow> Inr None
              | Some char_list \<Rightarrow>
                  (let zone_index = get_zone_index (case zone of Some z \<Rightarrow> z | None \<Rightarrow> [])
                   in if zone_index < length char_list then Inr (Some (char_list ! zone_index))
                      else Inr None))))"

text \<open>
  \<^verbatim>\<open>execute_action\<close>: the whole body stands in \<^verbatim>\<open>try ... except Exception\<close>. In each
  branch the sink call comes first and the update of \<^verbatim>\<open>current_text\<close> after it.
\<close>

definition execute_action :: "(sink_call \<Rightarrow> outcome) \<Rightarrow> string \<Rightarrow> keyboard \<Rightarrow> exn option \<times> keyboard" where
  "execute_action sk action s =
     try_exception
       (if action = '' '' then
          sink_do sk (Press ''space'') (\<lambda>s. s\<lparr>current_text := current_text s @ '' ''\<rparr>) s
        else if action = ''BACKSPACE'' then
          sink_do sk (Press ''backspace'')
            (\<lambda>s. if current_text s \<noteq> [] then s\<lparr>current_text := butlast (current_text s)\<rparr> else s) s
        else if action = ''ENTER'' then
          sink_do sk (Press ''enter'') (\<lambda>s. s\<lparr>current_text := current_text s @ [CHR 0x5C, CHR ''n'']\<rparr>) s
        else if action = ''TAB'' then
          sink_do sk (Press ''tab'') (\<lambda>s. s\<lparr>current_text := current_text s @ [CHR 0x5C, CHR ''t'']\<rparr>) s
        else if action \<in> set [''UP'', ''DOWN'', ''LEFT'', ''RIGHT''] then
          sink_do sk (Press (lower action)) id s
        else if action \<in> set [''CTRL'', ''ALT'', ''SHIFT''] then (None, s)
        else if action = ''COPY'' then sink_do sk (Hotkey ''ctrl'' ''c'') id s
        else if action = ''PASTE'' then sink_do sk (Hotkey ''ctrl'' ''v'') id s
        else if action = ''CUT'' then sink_do sk (Hotkey ''ctrl'' ''x'') id s
        else if action = ''UNDO'' then sink_do sk (Hotkey ''ctrl'' ''z'') id s
        else if action = ''SAVE'' then sink_do sk (Hotkey ''ctrl'' ''s'') id s
        else if length action = 1 then
          sink_do sk (Typewrite action) (\<lambda>s. s\<lparr>current_text := current_text s @ action\<rparr>) s
        else if take 1 action = ''F'' \<and> isdigit (drop 1 action) then
          sink_do sk (Press (lower action)) id s
        else (None, s))"

definition change_mode :: "keyboard \<Rightarrow> keyboard" where
  "change_mode s =
     (let s1 = s\<lparr>mode_index := (mode_index s + 1) mod length modes\<rparr>
      in s1\<lparr>current_mode := modes ! mode_index s1\<rparr>)"

text \<open>
  One iteration of the loop of \<^verbatim>\<open>WebcamKeyboard.run\<close>: the camera frame (\<open>kret\<close>), the
  detected hands (at most two, the first is the primary hand), the four readings of
  \<^verbatim>\<open>time.time()\<close> the iteration can take, in the order of the source, the behaviour of
  \<^verbatim>\<open>pyautogui\<close> and the key code.
\<close>

record kinput =
  kret :: bool
  khands :: "hand list"
  clock_gesture :: real
  clock_action :: real
  clock_mode_check :: real
  clock_mode_set :: real
  ksink :: "sink_call \<Rightarrow> outcome"
  kkey :: nat

definition both_hands_open :: "kinput \<Rightarrow> bool" where
  "both_hands_open i = (length (khands i) = 2 \<and> list_all (\<lambda>h. count_fingers h = 5) (khands i))"

text \<open>\<^verbatim>\<open>list(d)[-3:]\<close>\<close>

definition last3 :: "'a list \<Rightarrow> 'a list" where
  "last3 xs = drop (length xs - 3) xs"

text \<open>The confirmation logic: the branch \<^verbatim>\<open>if results.multi_hand_landmarks: ... else: ...\<close>.\<close>

definition confirm :: "kinput \<Rightarrow> keyboard \<Rightarrow> exn option \<times> keyboard" where
  "confirm i s =
     (case khands i of
        [] \<Rightarrow> (None, s\<lparr>current_zone := None, gesture_confirmed := False, confirmation_frames := 0\<rparr>)
      | primary_hand # _ \<Rightarrow>
          (let finger_count = count_fingers primary_hand;
               zone = get_hand_zone primary_hand;
               s1 = s\<lparr>finger_count_history := deque_append 5 finger_count (finger_count_history s),
                      zone_history := deque_append 5 zone (zone_history s),
                      current_zone := zone\<rparr>
           in if 3 \<le> length (finger_count_history s1) then
                (let recent_counts = last3 (finger_count_history s1);
                     recent_zones = last3 (zone_history s1)
                 in if card (set recent_counts) = 1 \<and> card (set recent_zones) = 1 then
                      if \<not> gesture_confirmed s1 then
                        (let s2 = s1\<lparr>confirmation_frames := confirmation_frames s1 + 1\<rparr>
                         in if required_confirmation \<le> confirmation_frames s2 then
                              (let s3 = s2\<lparr>gesture_confirmed := True, last_finger_count := finger_count\<rparr>
                               in if typing_enabled s3 \<and> \<not> both_hands_open i then
                                    (case process_gesture (clock_gesture i) finger_count zone s3 of
                                       Inl e \<Rightarrow> (Some e, s3)
                                     | Inr None \<Rightarrow> (None, s3)
                                     | Inr (Some action) \<Rightarrow>
                                         if action \<noteq> [] then
                                           andthen (execute_action (ksink i) action s3)
                                             (\<lambda>s. (None, s\<lparr>last_gesture_time := clock_action i,
                                                             actions := actions s @ [action]\<rparr>))
                                         else (None, s3))
                                  else (None, s3))
                            else (None, s2))
                      else (None, s1)
                    else (None, s1\<lparr>gesture_confirmed := False, confirmation_frames := 0,
                                    last_finger_count := finger_count\<rparr>))
              else (None, s1)))"

text \<open>The block \<^verbatim>\<open># Handle mode change\<close>.\<close>

definition mode_switch :: "kinput \<Rightarrow> keyboard \<Rightarrow> keyboard" where
  "mode_switch i s =
     (if both_hands_open i \<and> 2 < clock_mode_check i - last_gesture_time s then
        (change_mode s)\<lparr>last_gesture_time := clock_mode_set i\<rparr>
      else s)"

definition keyboard_frame :: "kinput \<Rightarrow> keyboard \<Rightarrow> exn option \<times> keyboard" where
  "keyboard_frame i s = andthen (confirm i s) (\<lambda>s. (None, mode_switch i s))"

definition keyboard_loop_body :: "kinput \<Rightarrow> keyboard \<Rightarrow> keyboard flow" where
  "keyboard_loop_body i s =
     (if \<not> kret i then Broke s
      else
        (case keyboard_frame i s of
           (Some e, s1) \<Rightarrow> Raised e s1
         | (None, s1) \<Rightarrow>
             if kkey i = 113 then Broke s1
             else if kkey i = 116 then Goes_on (s1\<lparr>typing_enabled := \<not> typing_enabled s1\<rparr>)
             else if kkey i = 99 then Goes_on (s1\<lparr>current_text := []\<rparr>)
             else if kkey i = 109 then Goes_on (change_mode s1)
             else Goes_on s1))"

fun run_keyboard_frames :: "kinput list \<Rightarrow> keyboard \<Rightarrow> exn option \<times> keyboard" where
  "run_keyboard_frames [] s = (None, s)"
| "run_keyboard_frames (i # is) s = andthen (keyboard_frame i s) (run_keyboard_frames is)"



section \<open>webcam_virtual_keyboard.py: dwell and pinch selection on a virtual keyboard\<close>

text \<open>
  The fields of \<^verbatim>\<open>VirtualKeyboard\<close> the selection logic uses. (\<^verbatim>\<open>pinch_active\<close> and the
  pinch thresholds carry the prefix \<open>vk\<close> here; \<^verbatim>\<open>pinch_started_at\<close> is never used.)
\<close>

record vkeyboard = world +
  selection_method :: string
  hover_key :: "string option"
  hover_started_at :: real
  last_select_time :: real
  vk_pinch_active :: bool
  caps_lock :: bool
  shift_latched :: bool
  preview_text :: string

definition select_debounce :: real where "select_debounce = 35 / 100"
definition preview_max :: nat where "preview_max = 60"

definition init_vkeyboard :: vkeyboard where
  "init_vkeyboard =
     \<lparr> sent = [],
       selection_method = ''dwell'',
       hover_key = None,
       hover_started_at = 0,
       last_select_time = 0,
       vk_pinch_active = False,
       caps_lock = False,
       shift_latched = False,
       preview_text = [] \<rparr>"

definition shift_map :: "(string \<times> string) list" where
  "shift_map =
     [ ([CHR 0x60], ''~''), (''1'', ''!''), (''2'', ''@''), (''3'', ''#''), (''4'', ''$''),
       (''5'', ''%''), (''6'', ''^''), (''7'', ''&''), (''8'', ''*''), (''9'', ''(''), (''0'', '')''),
       (''-'', ''_''), (''='', ''+''), (''['', ''{''), ('']'', ''}''), ([CHR 0x5C], ''|''),
       ('';'', '':''), ([CHR 0x27], [CHR 0x22]), ('','', ''<''), (''.'', ''>''), (''/'', ''?'') ]"

definition shifted_char :: "string \<Rightarrow> string" where
  "shifted_char ch =
     (case map_of shift_map ch of
        Some v \<Rightarrow> v
      | None \<Rightarrow> (if isalpha ch then upper ch else ch))"

text \<open>
  \<^verbatim>\<open>type_key\<close>. \<open>type_key_body\<close> is the body of its \<^verbatim>\<open>try\<close> statement, in which no
  sink call is guarded; \<open>shift_applies_once\<close> is its \<^verbatim>\<open>finally\<close> clause, which runs
  whether the body returned or raised and hands a raised exception on.
\<close>

definition type_key_body :: "(sink_call \<Rightarrow> outcome) \<Rightarrow> string \<Rightarrow> vkeyboard \<Rightarrow> exn option \<times> vkeyboard" where
  "type_key_body sk label s =
     (if label = ''Backspace'' then
        sink_do sk (Press ''backspace'')
          (\<lambda>s. if preview_text s \<noteq> [] then s\<lparr>preview_text := butlast (preview_text s)\<rparr> else s) s
      else if label = ''Tab'' then
        sink_do sk (Press ''tab'') (\<lambda>s. s\<lparr>preview_text := preview_text s @ [CHR 9]\<rparr>) s
      else if label = ''Enter'' then
        sink_do sk (Press ''enter'') (\<lambda>s. s\<lparr>preview_text := preview_text s @ [CHR 10]\<rparr>) s
      else if label = ''Space'' then
        sink_do sk (Press ''space'') (\<lambda>s. s\<lparr>preview_text := preview_text s @ '' ''\<rparr>) s
      else if label = ''Caps'' then (None, s\<lparr>caps_lock := \<not> caps_lock s\<rparr>)
      else if label = ''Shift'' then (None, s\<lparr>shift_latched := True\<rparr>)
      else if label \<in> set [''Ctrl'', ''Alt'', ''Win'', ''Menu''] then (None, s)
      else if length label = 1 then
        (let out = (if isalpha label then
                      (let upper_case = (caps_lock s \<noteq> shift_latched s)
                       in if upper_case then upper label else lower label)
                    else if shift_latched s then shifted_char label
                    else label)
         in sink_do sk (Typewrite out)
              (\<lambda>s. s\<lparr>preview_text := drop (length (preview_text s @ out) - preview_max)
                                           (preview_text s @ out)\<rparr>) s)
      else (None, s))"

definition shift_applies_once :: "string \<Rightarrow> exn option \<times> vkeyboard \<Rightarrow> exn option \<times> vkeyboard" where
  "shift_applies_once label r =
     (case r of (e, s) \<Rightarrow>
        (e, if shift_latched s \<and> label \<notin> set [''Shift'', ''Caps''] then s\<lparr>shift_latched := False\<rparr> else s))"

definition type_key :: "real \<Rightarrow> (sink_call \<Rightarrow> outcome) \<Rightarrow> string \<Rightarrow> vkeyboard \<Rightarrow> exn option \<times> vkeyboard" where
  "type_key clock sk label s =
     (if clock - last_select_time s < select_debounce then (None, s)
      else shift_applies_once label (type_key_body sk label (s\<lparr>last_select_time := clock\<rparr>)))"

text \<open>The key rectangles of the current frame and \<^verbatim>\<open>key_at\<close>.\<close>

record key_rect =
  label :: string
  x1 :: int
  y1 :: int
  x2 :: int
  y2 :: int











section \<open>Vocabulary of the properties\<close>

subsection \<open>Vocabulary for the properties of the pointer controller\<close>

text \<open>
  \<open>only_failsafe f\<close>: during the frame every sink call returns or raises
  \<^verbatim>\<open>FailSafeException\<close>; \<open>all_return f\<close>: every sink call returns.
\<close>

definition only_failsafe :: "frame \<Rightarrow> bool" where
  "only_failsafe f = (\<forall>c. sink f c = Returns \<or> sink f c = Raises FailSafeException)"

definition all_return :: "frame \<Rightarrow> bool" where
  "all_return f = (\<forall>c. sink f c = Returns)"

text \<open>The events of the primary pinch channel among the calls that reached the sink.\<close>

definition primary_events :: "sink_call list \<Rightarrow> sink_call list" where
  "primary_events cs = filter (\<lambda>c. c = MouseDown \<or> c = MouseUp \<or> c = Click) cs"

text \<open>The number of right-clicks among the calls that reached the sink.\<close>

definition right_clicks :: "sink_call list \<Rightarrow> nat" where
  "right_clicks cs = length (filter (\<lambda>c. c = RightClick) cs)"

text \<open>
  The two tests of the primary channel, as written in \<^verbatim>\<open>handle_mouse_control\<close>: the
  pinch start test of an idle channel and the release test of an armed one.
\<close>

definition arming :: "frame \<Rightarrow> bool" where
  "arming f = (index_extended f \<and> thumb_index_distance f < pinch_on)"

definition released :: "frame \<Rightarrow> bool" where
  "released f = (pinch_off < thumb_index_distance f \<or> \<not> index_extended f)"

text \<open>
  The number of Arm transitions (\<^verbatim>\<open>pinch_active\<close> set) and of Release transitions
  (\<^verbatim>\<open>pinch_active\<close> cleared) along a run of frames.
\<close>

fun arms :: "frame list \<Rightarrow> controller \<Rightarrow> nat" where
  "arms [] s = 0"
| "arms (f # fs) s =
     (if \<not> pinch_active s \<and> pinch_active (snd (handle_mouse_control f s)) then 1 else 0)
     + (if fst (handle_mouse_control f s) = None then arms fs (snd (handle_mouse_control f s)) else 0)"

fun releases :: "frame list \<Rightarrow> controller \<Rightarrow> nat" where
  "releases [] s = 0"
| "releases (f # fs) s =
     (if pinch_active s \<and> \<not> pinch_active (snd (handle_mouse_control f s)) then 1 else 0)
     + (if fst (handle_mouse_control f s) = None then releases fs (snd (handle_mouse_control f s)) else 0)"

text \<open>A frame with the hand pointing, in which every sink call returns.\<close>

definition pointing :: "real \<Rightarrow> real \<Rightarrow> real \<Rightarrow> frame" where
  "pointing t d_index d_middle =
     \<lparr> now = t, sink = (\<lambda>c. Returns), cursor_pos = (320, 240), index_extended = True,
       thumb_index_distance = d_index, thumb_middle_distance = d_middle \<rparr>"

text \<open>
  A frame in which \<^verbatim>\<open>pyautogui.click()\<close> raises: an exception other than
  \<^verbatim>\<open>FailSafeException\<close>, or \<^verbatim>\<open>FailSafeException\<close>.
\<close>

definition failing_click :: "frame \<Rightarrow> frame" where
  "failing_click f = f\<lparr>sink := (\<lambda>c. if c = Click then Raises OtherException else Returns)\<rparr>"

definition failsafe_click :: "frame \<Rightarrow> frame" where
  "failsafe_click f = f\<lparr>sink := (\<lambda>c. if c = Click then Raises FailSafeException else Returns)\<rparr>"

text \<open>A drag is in progress only while the primary channel is armed.\<close>

definition drag_implies_pinch :: "controller \<Rightarrow> bool" where
  "drag_implies_pinch s = (drag_mode s \<longrightarrow> pinch_active s)"


subsection \<open>Vocabulary for the properties of the zone-typing keyboard\<close>

text \<open>What the loop extracts from the primary hand of an iteration: finger count and zone.\<close>

definition primary_features :: "kinput \<Rightarrow> (nat \<times> string option) option" where
  "primary_features i =
     (case khands i of [] \<Rightarrow> None | h # _ \<Rightarrow> Some (count_fingers h, get_hand_zone h))"

text \<open>The successor of a mode in the list \<^verbatim>\<open>self.modes\<close>, read as a cycle.\<close>

definition next_mode :: "string \<Rightarrow> string" where
  "next_mode m =
     (if m = ''LETTERS'' then ''NUMBERS''
      else if m = ''NUMBERS'' then ''SYMBOLS''
      else if m = ''SYMBOLS'' then ''ACTIONS''
      else ''LETTERS'')"

text \<open>
  A hand that shows \<open>n\<close> fingers (thumb first, then index, middle, ring, little finger)
  with the tip of the index finger at \<open>(x, y)\<close>.
\<close>

definition shown_hand :: "nat \<Rightarrow> real \<Rightarrow> real \<Rightarrow> hand" where
  "shown_hand n x y =
     (\<lambda>k. if k = 8 then (x, y)
          else if k = 6 then (x, if 2 \<le> n then y + 1 else y - 1)
          else if k = 4 then (1, 0)
          else if k = 3 then (if 1 \<le> n then 0 else 2, 0)
          else if k = 10 then (0, if 3 \<le> n then 1 else - 1)
          else if k = 14 then (0, if 4 \<le> n then 1 else - 1)
          else if k = 18 then (0, if 5 \<le> n then 1 else - 1)
          else (0, 0))"

text \<open>
  An iteration that sees the given hands at clock reading \<open>t\<close> (all four readings equal),
  with every sink call returning and no key pressed.
\<close>

definition seen :: "real \<Rightarrow> hand list \<Rightarrow> kinput" where
  "seen t hs =
     \<lparr> kret = True, khands = hs, clock_gesture = t, clock_action = t, clock_mode_check = t,
       clock_mode_set = t, ksink = (\<lambda>c. Returns), kkey = 255 \<rparr>"

text \<open>
  The two most recent entries of both histories are the pair \<open>(c, z)\<close>: the next frame
  with that pair passes the stability test over the last three frames.
\<close>

definition stable_tail :: "nat \<Rightarrow> string option \<Rightarrow> keyboard \<Rightarrow> bool" where
  "stable_tail c z s =
     ((\<exists>p. finger_count_history s = p @ [c, c]) \<and> (\<exists>q. zone_history s = q @ [z, z]))"

text \<open>A frame that shows the pair \<open>(c, z)\<close> with the primary hand and is no mode gesture.\<close>

definition shows_pair :: "nat \<Rightarrow> string option \<Rightarrow> kinput \<Rightarrow> bool" where
  "shows_pair c z i = (primary_features i = Some (c, z) \<and> \<not> both_hands_open i)"

text \<open>
  The keyboard after its first two frames, both showing two fingers in the middle of the
  image, and a later frame that shows one finger there.
\<close>

definition after_two_fingers :: keyboard where
  "after_two_fingers =
     snd (run_keyboard_frames
            [seen 5 [shown_hand 2 (1 / 2) (1 / 2)], seen 6 [shown_hand 2 (1 / 2) (1 / 2)]] init_keyboard)"

definition one_finger :: kinput where
  "one_finger = seen 10 [shown_hand 1 (1 / 2) (1 / 2)]"


subsection \<open>Vocabulary for the properties of the virtual keyboard\<close>











section \<open>Auxiliary facts\<close>

subsection \<open>Auxiliary facts about the pointer controller\<close>

lemma primary_events_append: "primary_events (xs @ ys) = primary_events xs @ primary_events ys"
  by (simp add: primary_events_def)

lemma try_failsafe_guarded:
  "only_failsafe f \<Longrightarrow>
   try_failsafe (sink f) c g s = (None, if sink f c = Returns then g (s\<lparr>sent := sent s @ [c]\<rparr>) else s)"
proof -
  assume "only_failsafe f"
  then have "sink f c = Returns \<or> sink f c = Raises FailSafeException"
    by (simp add: only_failsafe_def)
  then show ?thesis
    by (auto simp: try_failsafe_def sink_do_def)
qed

lemma try_failsafe_cases:
  "try_failsafe sk c g s = (None, g (s\<lparr>sent := sent s @ [c]\<rparr>)) \<and> sk c = Returns
   \<or> try_failsafe sk c g s = (None, s) \<and> sk c = Raises FailSafeException
   \<or> (\<exists>e. try_failsafe sk c g s = (Some e, s) \<and> sk c = Raises e \<and> e \<noteq> FailSafeException)"
  unfolding try_failsafe_def sink_do_def
  by (cases "sk c") auto

lemma smooth_cursor_position_state:
  "snd (smooth_cursor_position p s) = s\<lparr>cursor_history := deque_append 5 p (cursor_history s)\<rparr>"
  by (simp add: smooth_cursor_position_def Let_def)

lemma move_cursor_state:
  "\<exists>h ms. snd (move_cursor f s) = s\<lparr>cursor_history := h, sent := sent s @ ms\<rparr> \<and> primary_events ms = []"
proof (cases "mouse_control_enabled s \<and> index_extended f")
  case False
  have "s = s\<lparr>cursor_history := cursor_history s, sent := sent s @ []\<rparr>" by simp
  moreover have "snd (move_cursor f s) = s" using False unfolding move_cursor_def by auto
  ultimately show ?thesis by (metis primary_events_def filter.simps(1))
next
  case True
  obtain x y s1 where sm: "smooth_cursor_position (cursor_pos f) s = ((x, y), s1)"
    by (metis prod.exhaust)
  have s1: "s1 = s\<lparr>cursor_history := deque_append 5 (cursor_pos f) (cursor_history s)\<rparr>"
    using smooth_cursor_position_state[of "cursor_pos f" s] sm by simp
  have mc: "move_cursor f s = try_failsafe (sink f) (MoveTo x y) id s1"
    using True sm by (simp add: move_cursor_def)
  have a: "s1\<lparr>sent := sent s1 @ [MoveTo x y]\<rparr> = s\<lparr>cursor_history := deque_append 5 (cursor_pos f) (cursor_history s), sent := sent s @ [MoveTo x y]\<rparr>"
    by (simp add: s1)
  have b: "s1 = s\<lparr>cursor_history := deque_append 5 (cursor_pos f) (cursor_history s), sent := sent s @ []\<rparr>"
    by (simp add: s1)
  have p1: "primary_events [MoveTo x y] = []" and p0: "primary_events [] = []"
    by (simp_all add: primary_events_def)
  from try_failsafe_cases[of "sink f" "MoveTo x y" id s1]
  consider "snd (move_cursor f s) = s1\<lparr>sent := sent s1 @ [MoveTo x y]\<rparr>" | "snd (move_cursor f s) = s1"
    unfolding mc by auto
  then show ?thesis
  proof cases
    case 1 then show ?thesis using a p1 by metis
  next
    case 2 then show ?thesis using b p0 by metis
  qed
qed

lemma move_cursor_fields:
  "mouse_control_enabled (snd (move_cursor f s)) = mouse_control_enabled s"
  "click_enabled (snd (move_cursor f s)) = click_enabled s"
  "drag_mode (snd (move_cursor f s)) = drag_mode s"
  "last_click_time (snd (move_cursor f s)) = last_click_time s"
  "pinch_active (snd (move_cursor f s)) = pinch_active s"
  "pinch_started_at (snd (move_cursor f s)) = pinch_started_at s"
  "right_pinch_active (snd (move_cursor f s)) = right_pinch_active s"
  "right_pinch_started_at (snd (move_cursor f s)) = right_pinch_started_at s"
  "last_right_click_time (snd (move_cursor f s)) = last_right_click_time s"
  "primary_events (sent (snd (move_cursor f s))) = primary_events (sent s)"
  using move_cursor_state[of f s] by (auto simp: primary_events_append)

lemma move_cursor_returns: "only_failsafe f \<Longrightarrow> fst (move_cursor f s) = None"
  by (simp add: move_cursor_def try_failsafe_guarded split: prod.splits)

lemma left_click_drag_returns: "only_failsafe f \<Longrightarrow> fst (left_click_drag f s) = None"
  by (simp add: left_click_drag_def try_failsafe_guarded andthen_def)

lemma right_click_returns: "only_failsafe f \<Longrightarrow> fst (right_click f s) = None"
  by (simp add: right_click_def try_failsafe_guarded andthen_def)

lemma andthen_fst: "fst (andthen r k) = (if fst r = None then fst (k (snd r)) else fst r)"
  by (cases r) (auto simp: andthen_def)

lemma andthen_snd: "snd (andthen r k) = (if fst r = None then snd (k (snd r)) else snd r)"
  by (cases r) (auto simp: andthen_def)

lemma try_failsafe_snd:
  "snd (try_failsafe sk c g s) = (if sk c = Returns then g (s\<lparr>sent := sent s @ [c]\<rparr>) else s)"
  using try_failsafe_cases[of sk c g s] by auto

lemma try_failsafe_fst:
  "fst (try_failsafe sk c g s) =
     (if sk c = Returns \<or> sk c = Raises FailSafeException then None
      else Some (case sk c of Raises e \<Rightarrow> e))"
  using try_failsafe_cases[of sk c g s] by auto

lemmas projections = andthen_fst andthen_snd try_failsafe_fst try_failsafe_snd

lemma left_click_drag_fields:
  "mouse_control_enabled (snd (left_click_drag f s)) = mouse_control_enabled s"
  "click_enabled (snd (left_click_drag f s)) = click_enabled s"
  "right_pinch_active (snd (left_click_drag f s)) = right_pinch_active s"
  "right_pinch_started_at (snd (left_click_drag f s)) = right_pinch_started_at s"
  "last_right_click_time (snd (left_click_drag f s)) = last_right_click_time s"
  "cursor_history (snd (left_click_drag f s)) = cursor_history s"
  by (simp_all add: left_click_drag_def projections)

lemma right_click_fields:
  "mouse_control_enabled (snd (right_click f s)) = mouse_control_enabled s"
  "click_enabled (snd (right_click f s)) = click_enabled s"
  "drag_mode (snd (right_click f s)) = drag_mode s"
  "last_click_time (snd (right_click f s)) = last_click_time s"
  "pinch_active (snd (right_click f s)) = pinch_active s"
  "pinch_started_at (snd (right_click f s)) = pinch_started_at s"
  "cursor_history (snd (right_click f s)) = cursor_history s"
  "primary_events (sent (snd (right_click f s))) = primary_events (sent s)"
  by (simp_all add: right_click_def projections primary_events_def)

lemma left_click_drag_primary:
  assumes "only_failsafe f"
  shows "pinch_active (snd (left_click_drag f s)) =
           (if click_enabled s then
              if pinch_active s then \<not> released f
              else index_extended f \<and> thumb_index_distance f < pinch_on
            else pinch_active s)"
    and "pinch_started_at (snd (left_click_drag f s)) =
           (if click_enabled s \<and> \<not> pinch_active s \<and> index_extended f \<and> thumb_index_distance f < pinch_on
            then now f else pinch_started_at s)"
    and "drag_mode (snd (left_click_drag f s)) =
           (if click_enabled s \<and> pinch_active s then
              if released f then False
              else drag_mode s \<or> drag_hold_threshold \<le> now f - pinch_started_at s
            else drag_mode s)"
    and "primary_events (sent (snd (left_click_drag f s))) = primary_events (sent s) @
           (if click_enabled s \<and> pinch_active s then
              if released f then
                if drag_mode s then (if sink f MouseUp = Returns then [MouseUp] else [])
                else if now f - pinch_started_at s \<le> click_max_duration
                        \<and> click_debounce < now f - last_click_time s
                        \<and> sink f Click = Returns then [Click]
                else []
              else if \<not> drag_mode s \<and> drag_hold_threshold \<le> now f - pinch_started_at s
                      \<and> sink f MouseDown = Returns then [MouseDown]
              else []
            else [])"
  using assms
  by (simp_all add: left_click_drag_def andthen_def try_failsafe_guarded released_def primary_events_def)

lemma handle_mouse_control_guarded:
  assumes "only_failsafe f"
  shows "handle_mouse_control f s =
           (None, snd (right_click f (snd (left_click_drag f (snd (move_cursor f s))))))"
proof -
  obtain s1 where m: "move_cursor f s = (None, s1)"
    using move_cursor_returns[OF assms, of s] by (cases "move_cursor f s") auto
  obtain s2 where l: "left_click_drag f s1 = (None, s2)"
    using left_click_drag_returns[OF assms, of s1] by (cases "left_click_drag f s1") auto
  obtain s3 where r: "right_click f s2 = (None, s3)"
    using right_click_returns[OF assms, of s2] by (cases "right_click f s2") auto
  show ?thesis by (simp add: handle_mouse_control_def andthen_def m l r)
qed


lemma all_return_only_failsafe: "all_return f \<Longrightarrow> only_failsafe f"
  by (simp add: all_return_def only_failsafe_def)

lemma handle_mouse_control_primary:
  assumes "only_failsafe f"
  shows "fst (handle_mouse_control f s) = None"
    and "click_enabled (snd (handle_mouse_control f s)) = click_enabled s"
    and "pinch_active (snd (handle_mouse_control f s)) =
           (if click_enabled s then
              if pinch_active s then \<not> released f else arming f
            else pinch_active s)"
    and "pinch_started_at (snd (handle_mouse_control f s)) =
           (if click_enabled s \<and> \<not> pinch_active s \<and> arming f then now f else pinch_started_at s)"
    and "drag_mode (snd (handle_mouse_control f s)) =
           (if click_enabled s \<and> pinch_active s then
              if released f then False
              else drag_mode s \<or> drag_hold_threshold \<le> now f - pinch_started_at s
            else drag_mode s)"
    and "primary_events (sent (snd (handle_mouse_control f s))) = primary_events (sent s) @
           (if click_enabled s \<and> pinch_active s then
              if released f then
                if drag_mode s then (if sink f MouseUp = Returns then [MouseUp] else [])
                else if now f - pinch_started_at s \<le> click_max_duration
                        \<and> click_debounce < now f - last_click_time s
                        \<and> sink f Click = Returns then [Click]
                else []
              else if \<not> drag_mode s \<and> drag_hold_threshold \<le> now f - pinch_started_at s
                      \<and> sink f MouseDown = Returns then [MouseDown]
              else []
            else [])"
  by (simp_all only: handle_mouse_control_guarded[OF assms] fst_conv snd_conv right_click_fields
        left_click_drag_fields left_click_drag_primary[OF assms] move_cursor_fields arming_def)

lemma run_frames_append:
  "run_frames (xs @ ys) s = andthen (run_frames xs s) (run_frames ys)"
proof (induction xs arbitrary: s)
  case Nil
  show ?case by (simp add: andthen_def)
next
  case (Cons x xs)
  show ?case
    by (cases "handle_mouse_control x s") (auto simp: andthen_def Cons.IH split: option.splits)
qed

lemma arms_append:
  "arms (xs @ ys) s = arms xs s
     + (if fst (run_frames xs s) = None then arms ys (snd (run_frames xs s)) else 0)"
proof (induction xs arbitrary: s)
  case Nil
  show ?case by simp
next
  case (Cons x xs)
  show ?case
    by (cases "handle_mouse_control x s") (auto simp: andthen_def Cons.IH split: option.splits)
qed

lemma releases_append:
  "releases (xs @ ys) s = releases xs s
     + (if fst (run_frames xs s) = None then releases ys (snd (run_frames xs s)) else 0)"
proof (induction xs arbitrary: s)
  case Nil
  show ?case by simp
next
  case (Cons x xs)
  show ?case
    by (cases "handle_mouse_control x s") (auto simp: andthen_def Cons.IH split: option.splits)
qed

text \<open>Frames that do not arm leave an idle primary channel idle.\<close>

lemma idle_run:
  assumes "click_enabled s" "\<not> pinch_active s"
    and "\<forall>f \<in> set fs. only_failsafe f \<and> \<not> arming f"
  shows "fst (run_frames fs s) = None \<and> click_enabled (snd (run_frames fs s))
         \<and> \<not> pinch_active (snd (run_frames fs s)) \<and> arms fs s = 0 \<and> releases fs s = 0"
  using assms
proof (induction fs arbitrary: s)
  case Nil
  then show ?case by simp
next
  case (Cons f fs)
  then have g: "only_failsafe f" and na: "\<not> arming f" by simp_all
  let ?s = "snd (handle_mouse_control f s)"
  have 1: "click_enabled ?s" "\<not> pinch_active ?s" "fst (handle_mouse_control f s) = None"
    using Cons.prems(1,2) na by (simp_all add: handle_mouse_control_primary[OF g])
  have "\<forall>f \<in> set fs. only_failsafe f \<and> \<not> arming f" using Cons.prems(3) by simp
  from Cons.IH[OF 1(1) 1(2) this] show ?case
    using 1 Cons.prems(2) by (simp add: andthen_fst andthen_snd)
qed

text \<open>Frames that do not release keep an armed primary channel armed.\<close>

lemma held_run:
  assumes "click_enabled s" "pinch_active s"
    and "\<forall>f \<in> set fs. only_failsafe f \<and> \<not> released f"
  shows "fst (run_frames fs s) = None \<and> click_enabled (snd (run_frames fs s))
         \<and> pinch_active (snd (run_frames fs s)) \<and> arms fs s = 0 \<and> releases fs s = 0"
  using assms
proof (induction fs arbitrary: s)
  case Nil
  then show ?case by simp
next
  case (Cons f fs)
  then have g: "only_failsafe f" and nr: "\<not> released f" by simp_all
  let ?s = "snd (handle_mouse_control f s)"
  have 1: "click_enabled ?s" "pinch_active ?s" "fst (handle_mouse_control f s) = None"
    using Cons.prems(1,2) nr by (simp_all add: handle_mouse_control_primary[OF g])
  have "\<forall>f \<in> set fs. only_failsafe f \<and> \<not> released f" using Cons.prems(3) by simp
  from Cons.IH[OF 1(1) 1(2) this] show ?case
    using 1 Cons.prems(2) by (simp add: andthen_fst andthen_snd)
qed


subsection \<open>Auxiliary facts about the zone-typing keyboard\<close>

lemma sink_do_snd: "snd (sink_do sk c g s) = (if sk c = Returns then g (s\<lparr>sent := sent s @ [c]\<rparr>) else s)"
  by (simp add: sink_do_def split: outcome.splits)

lemma upt_1_5: "[1..<5] = [1, 2, 3, 4::nat]"
  by code_simp

lemma count_fingers_shown_hand: "n \<le> 5 \<Longrightarrow> count_fingers (shown_hand n x y) = n"
  unfolding count_fingers_def shown_hand_def upt_1_5 Let_def
  by simp

lemma execute_action_returns: "fst (execute_action sk a s) = None"
  by (simp add: execute_action_def try_exception_def)

lemma execute_action_fields:
  "typing_enabled (snd (execute_action sk a s)) = typing_enabled s"
  "last_gesture_time (snd (execute_action sk a s)) = last_gesture_time s"
  "finger_count_history (snd (execute_action sk a s)) = finger_count_history s"
  "last_finger_count (snd (execute_action sk a s)) = last_finger_count s"
  "gesture_confirmed (snd (execute_action sk a s)) = gesture_confirmed s"
  "confirmation_frames (snd (execute_action sk a s)) = confirmation_frames s"
  "current_zone (snd (execute_action sk a s)) = current_zone s"
  "zone_history (snd (execute_action sk a s)) = zone_history s"
  "current_mode (snd (execute_action sk a s)) = current_mode s"
  "mode_index (snd (execute_action sk a s)) = mode_index s"
  "actions (snd (execute_action sk a s)) = actions s"
  by (simp_all add: execute_action_def try_exception_def sink_do_snd)

lemma confirm_mode:
  "current_mode (snd (confirm i s)) = current_mode s"
  "mode_index (snd (confirm i s)) = mode_index s"
  by (simp_all add: confirm_def Let_def andthen_snd execute_action_returns execute_action_fields
      split: list.splits sum.splits option.splits)

lemma confirm_both_hands_open:
  assumes "both_hands_open i"
  shows "fst (confirm i s) = None" "last_gesture_time (snd (confirm i s)) = last_gesture_time s"
  using assms
  by (simp_all add: confirm_def Let_def split: list.splits)

lemma change_mode_fields:
  "mode_index (change_mode s) = (mode_index s + 1) mod 4"
  "current_mode (change_mode s) = modes ! ((mode_index s + 1) mod 4)"
  "last_gesture_time (change_mode s) = last_gesture_time s"
  by (simp_all add: change_mode_def modes_def Let_def)

lemma keyboard_frame_both_hands_open:
  assumes "both_hands_open i"
  shows "fst (keyboard_frame i s) = None"
    and "mode_index (snd (keyboard_frame i s)) =
           (if 2 < clock_mode_check i - last_gesture_time s then (mode_index s + 1) mod 4 else mode_index s)"
    and "current_mode (snd (keyboard_frame i s)) =
           (if 2 < clock_mode_check i - last_gesture_time s then modes ! ((mode_index s + 1) mod 4)
            else current_mode s)"
    and "last_gesture_time (snd (keyboard_frame i s)) =
           (if 2 < clock_mode_check i - last_gesture_time s then clock_mode_set i else last_gesture_time s)"
  using assms confirm_both_hands_open[OF assms, of s]
  by (simp_all add: keyboard_frame_def andthen_fst andthen_snd mode_switch_def change_mode_fields confirm_mode)

text \<open>While both hands stay open and the cooldown has not elapsed again, nothing changes.\<close>

lemma both_hands_open_cooldown:
  assumes "\<forall>f \<in> set fs. both_hands_open f \<and> clock_mode_check f - last_gesture_time s \<le> 2"
  shows "fst (run_keyboard_frames fs s) = None
         \<and> mode_index (snd (run_keyboard_frames fs s)) = mode_index s
         \<and> current_mode (snd (run_keyboard_frames fs s)) = current_mode s"
  using assms
proof (induction fs arbitrary: s)
  case Nil
  show ?case by simp
next
  case (Cons f fs)
  then have o: "both_hands_open f" and c: "clock_mode_check f - last_gesture_time s \<le> 2" by simp_all
  define t where "t = snd (keyboard_frame f s)"
  have 1: "fst (keyboard_frame f s) = None" "mode_index t = mode_index s" "current_mode t = current_mode s"
    "last_gesture_time t = last_gesture_time s"
    using c by (simp_all add: t_def keyboard_frame_both_hands_open[OF o])
  have "\<forall>f \<in> set fs. both_hands_open f \<and> clock_mode_check f - last_gesture_time t \<le> 2"
    using Cons.prems 1(4) by simp
  from Cons.IH[OF this] show ?case
    using 1 by (simp add: andthen_fst andthen_snd t_def[symmetric])
qed


subsection \<open>Auxiliary facts about the virtual keyboard\<close>















subsection \<open>Auxiliary facts about the confirmation of a gesture\<close>

lemma deque_append_tail: "deque_append 5 x (p @ [a, b]) = drop (length p - 2) p @ [a, b, x]"
  by (simp add: deque_append_def Let_def)

lemma last3_tail: "last3 (xs @ [a, b, x]) = [a, b, x]"
  by (simp add: last3_def)

lemma card_three: "card {a, b, x} = Suc 0 \<longleftrightarrow> a = b \<and> b = x"
  by (auto simp: card_insert_if)

lemma process_gesture_reads:
  "last_gesture_time t = last_gesture_time s \<Longrightarrow> current_mode t = current_mode s \<Longrightarrow>
   process_gesture ck c z t = process_gesture ck c z s"
  by (simp only: process_gesture_def)

lemma mode_switch_single: "\<not> both_hands_open i \<Longrightarrow> mode_switch i s = s"
  by (simp add: mode_switch_def)

text \<open>A frame whose pair differs from one of the two frames before it resets the counter.\<close>

lemma keyboard_frame_unstable:
  assumes f: "shows_pair c z i"
    and h: "finger_count_history s = p @ [a, b]" "zone_history s = q @ [a', b']"
    and d: "\<not> (a = b \<and> b = c \<and> a' = b' \<and> b' = z)"
  shows "keyboard_frame i s =
           (None, s\<lparr>finger_count_history := drop (length p - 2) p @ [a, b, c],
                     zone_history := drop (length q - 2) q @ [a', b', z],
                     current_zone := z, gesture_confirmed := False, confirmation_frames := 0,
                     last_finger_count := c\<rparr>)"
proof -
  obtain hd tl where k: "khands i = hd # tl" "count_fingers hd = c" "get_hand_zone hd = z"
    using f by (cases "khands i") (auto simp: shows_pair_def primary_features_def)
  have nb: "\<not> both_hands_open i" using f by (simp add: shows_pair_def)
  have "confirm i s =
           (None, s\<lparr>finger_count_history := drop (length p - 2) p @ [a, b, c],
                     zone_history := drop (length q - 2) q @ [a', b', z],
                     current_zone := z, gesture_confirmed := False, confirmation_frames := 0,
                     last_finger_count := c\<rparr>)"
    using d by (auto simp: confirm_def k h deque_append_tail last3_tail card_three Let_def)
  then show ?thesis
    by (simp add: keyboard_frame_def andthen_def mode_switch_single[OF nb])
qed

text \<open>A frame that repeats the pair of the two frames before it, in a confirmed state.\<close>

lemma keyboard_frame_confirmed:
  assumes f: "shows_pair c z i"
    and h: "finger_count_history s = p @ [c, c]" "zone_history s = q @ [z, z]"
    and g: "gesture_confirmed s"
  shows "keyboard_frame i s =
           (None, s\<lparr>finger_count_history := drop (length p - 2) p @ [c, c, c],
                     zone_history := drop (length q - 2) q @ [z, z, z],
                     current_zone := z\<rparr>)"
proof -
  obtain hd tl where k: "khands i = hd # tl" "count_fingers hd = c" "get_hand_zone hd = z"
    using f by (cases "khands i") (auto simp: shows_pair_def primary_features_def)
  have nb: "\<not> both_hands_open i" using f by (simp add: shows_pair_def)
  have "confirm i s =
           (None, s\<lparr>finger_count_history := drop (length p - 2) p @ [c, c, c],
                     zone_history := drop (length q - 2) q @ [z, z, z],
                     current_zone := z\<rparr>)"
    using g by (simp add: confirm_def k h deque_append_tail last3_tail card_three Let_def)
  then show ?thesis
    by (simp add: keyboard_frame_def andthen_def mode_switch_single[OF nb])
qed

text \<open>The same frame in an unconfirmed state, before the counter reaches the required run.\<close>

lemma keyboard_frame_counting:
  assumes f: "shows_pair c z i"
    and h: "finger_count_history s = p @ [c, c]" "zone_history s = q @ [z, z]"
    and g: "\<not> gesture_confirmed s" "confirmation_frames s + 1 < required_confirmation"
  shows "keyboard_frame i s =
           (None, s\<lparr>finger_count_history := drop (length p - 2) p @ [c, c, c],
                     zone_history := drop (length q - 2) q @ [z, z, z],
                     current_zone := z, confirmation_frames := confirmation_frames s + 1\<rparr>)"
proof -
  obtain hd tl where k: "khands i = hd # tl" "count_fingers hd = c" "get_hand_zone hd = z"
    using f by (cases "khands i") (auto simp: shows_pair_def primary_features_def)
  have nb: "\<not> both_hands_open i" using f by (simp add: shows_pair_def)
  have "confirm i s =
           (None, s\<lparr>finger_count_history := drop (length p - 2) p @ [c, c, c],
                     zone_history := drop (length q - 2) q @ [z, z, z],
                     current_zone := z, confirmation_frames := confirmation_frames s + 1\<rparr>)"
    using g by (simp add: confirm_def k h deque_append_tail last3_tail card_three Let_def)
  then show ?thesis
    by (simp add: keyboard_frame_def andthen_def mode_switch_single[OF nb])
qed

text \<open>The frame at which the counter reaches the required run: the gesture is processed.\<close>

lemma keyboard_frame_confirming:
  assumes f: "shows_pair c z i"
    and h: "finger_count_history s = p @ [c, c]" "zone_history s = q @ [z, z]"
    and g: "\<not> gesture_confirmed s" "confirmation_frames s + 1 = required_confirmation"
    and t: "typing_enabled s"
    and a: "process_gesture (clock_gesture i) c z s = Inr (Some act)" "act \<noteq> []"
  shows "fst (keyboard_frame i s) = None"
    and "stable_tail c z (snd (keyboard_frame i s))"
    and "gesture_confirmed (snd (keyboard_frame i s))"
    and "actions (snd (keyboard_frame i s)) = actions s @ [act]"
proof -
  obtain hd tl where k: "khands i = hd # tl" "count_fingers hd = c" "get_hand_zone hd = z"
    using f by (cases "khands i") (auto simp: shows_pair_def primary_features_def)
  have nb: "\<not> both_hands_open i" using f by (simp add: shows_pair_def)
  define s3 where "s3 = s\<lparr>finger_count_history := drop (length p - 2) p @ [c, c, c],
                     zone_history := drop (length q - 2) q @ [z, z, z],
                     current_zone := z, confirmation_frames := confirmation_frames s + 1,
                     gesture_confirmed := True, last_finger_count := c\<rparr>"
  have pg: "process_gesture (clock_gesture i) c z s3 = Inr (Some act)"
    using a(1) process_gesture_reads[of s3 s] by (simp add: s3_def)
  have c: "confirm i s = andthen (execute_action (ksink i) act s3)
             (\<lambda>s. (None, s\<lparr>last_gesture_time := clock_action i, actions := actions s @ [act]\<rparr>))"
    using g t nb a(2) pg[unfolded s3_def]
    by (simp add: confirm_def k h deque_append_tail last3_tail card_three Let_def s3_def)
  define e where "e = snd (execute_action (ksink i) act s3)"
  have r: "keyboard_frame i s = (None, e\<lparr>last_gesture_time := clock_action i, actions := actions e @ [act]\<rparr>)"
    using execute_action_returns[of "ksink i" act s3]
    by (cases "execute_action (ksink i) act s3")
       (simp add: keyboard_frame_def c andthen_def e_def mode_switch_def nb)
  have e: "finger_count_history e = drop (length p - 2) p @ [c, c, c]"
    "zone_history e = drop (length q - 2) q @ [z, z, z]" "gesture_confirmed e" "actions e = actions s"
    by (simp_all add: e_def execute_action_fields s3_def)
  show "fst (keyboard_frame i s) = None" by (simp add: r)
  have "finger_count_history e = (drop (length p - 2) p @ [c]) @ [c, c]"
    "zone_history e = (drop (length q - 2) q @ [z]) @ [z, z]"
    using e by simp_all
  then show "stable_tail c z (snd (keyboard_frame i s))"
    unfolding stable_tail_def r by (simp del: append_assoc)
  show "gesture_confirmed (snd (keyboard_frame i s))" by (simp add: r e)
  show "actions (snd (keyboard_frame i s)) = actions s @ [act]" by (simp add: r e)
qed

lemma character_maps_nonempty:
  "\<forall>(m, t) \<in> set character_maps. \<forall>(n, l) \<in> set t. [] \<notin> set l"
  by (simp add: character_maps_def singles_def)

lemma process_gesture_nonempty:
  assumes "process_gesture ck c z s = Inr (Some a)"
  shows "a \<noteq> []"
proof (cases "c = 0 \<or> (c = 5 \<and> z \<in> set [Some ''top_left'', Some ''top_center'', Some ''top_right''])")
  case True
  then show ?thesis
    using assms by (auto simp: process_gesture_def split: if_splits)
next
  case False
  then obtain t l where t: "map_of character_maps (current_mode s) = Some t"
    and l: "map_of t c = Some l"
    and a: "get_zone_index (case z of Some z \<Rightarrow> z | None \<Rightarrow> []) < length l"
           "a = l ! get_zone_index (case z of Some z \<Rightarrow> z | None \<Rightarrow> [])"
    using assms by (auto simp: process_gesture_def Let_def split: if_splits option.splits)
  have "(current_mode s, t) \<in> set character_maps" using t by (rule map_of_SomeD)
  moreover have "(c, l) \<in> set t" using l by (rule map_of_SomeD)
  ultimately have "[] \<notin> set l" using character_maps_nonempty by blast
  then show ?thesis using a nth_mem by metis
qed

lemma run_keyboard_frames_append:
  "run_keyboard_frames (xs @ ys) s = andthen (run_keyboard_frames xs s) (run_keyboard_frames ys)"
proof (induction xs arbitrary: s)
  case Nil
  show ?case by (simp add: andthen_def)
next
  case (Cons x xs)
  show ?case
    by (cases "keyboard_frame x s") (auto simp: andthen_def Cons.IH split: option.splits)
qed

text \<open>While the counter stays below the required run, nothing is emitted.\<close>

lemma counting_run:
  assumes "\<forall>i \<in> set fs. shows_pair c z i" "stable_tail c z s" "\<not> gesture_confirmed s"
    and "confirmation_frames s + length fs < required_confirmation"
  shows "fst (run_keyboard_frames fs s) = None
         \<and> stable_tail c z (snd (run_keyboard_frames fs s))
         \<and> \<not> gesture_confirmed (snd (run_keyboard_frames fs s))
         \<and> confirmation_frames (snd (run_keyboard_frames fs s)) = confirmation_frames s + length fs
         \<and> actions (snd (run_keyboard_frames fs s)) = actions s
         \<and> last_gesture_time (snd (run_keyboard_frames fs s)) = last_gesture_time s
         \<and> current_mode (snd (run_keyboard_frames fs s)) = current_mode s
         \<and> typing_enabled (snd (run_keyboard_frames fs s)) = typing_enabled s"
  using assms
proof (induction fs arbitrary: s)
  case Nil
  then show ?case by simp
next
  case (Cons i fs)
  obtain p q where h: "finger_count_history s = p @ [c, c]" "zone_history s = q @ [z, z]"
    using Cons.prems(2) by (auto simp: stable_tail_def)
  have f: "shows_pair c z i" and rest: "\<forall>i \<in> set fs. shows_pair c z i"
    using Cons.prems(1) by simp_all
  have n: "confirmation_frames s + 1 < required_confirmation" using Cons.prems(4) by simp
  define t where "t = s\<lparr>finger_count_history := drop (length p - 2) p @ [c, c, c],
                     zone_history := drop (length q - 2) q @ [z, z, z],
                     current_zone := z, confirmation_frames := confirmation_frames s + 1\<rparr>"
  have step: "keyboard_frame i s = (None, t)"
    unfolding t_def by (rule keyboard_frame_counting[OF f h Cons.prems(3) n])
  have "finger_count_history t = (drop (length p - 2) p @ [c]) @ [c, c]"
    "zone_history t = (drop (length q - 2) q @ [z]) @ [z, z]"
    by (simp_all add: t_def)
  then have t1: "stable_tail c z t" unfolding stable_tail_def by blast
  have t2: "\<not> gesture_confirmed t" "confirmation_frames t = confirmation_frames s + 1"
    "actions t = actions s" "last_gesture_time t = last_gesture_time s"
    "current_mode t = current_mode s" "typing_enabled t = typing_enabled s"
    using Cons.prems(3) by (simp_all add: t_def)
  have "confirmation_frames t + length fs < required_confirmation"
    using Cons.prems(4) t2(2) by simp
  from Cons.IH[OF rest t1 t2(1) this] show ?case
    using t2 by (simp add: step andthen_def)
qed

text \<open>Once the gesture is confirmed, the frames of the same run emit nothing.\<close>

lemma confirmed_run:
  assumes "\<forall>i \<in> set fs. shows_pair c z i" "stable_tail c z s" "gesture_confirmed s"
  shows "fst (run_keyboard_frames fs s) = None
         \<and> actions (snd (run_keyboard_frames fs s)) = actions s"
  using assms
proof (induction fs arbitrary: s)
  case Nil
  then show ?case by simp
next
  case (Cons i fs)
  obtain p q where h: "finger_count_history s = p @ [c, c]" "zone_history s = q @ [z, z]"
    using Cons.prems(2) by (auto simp: stable_tail_def)
  have f: "shows_pair c z i" and rest: "\<forall>i \<in> set fs. shows_pair c z i"
    using Cons.prems(1) by simp_all
  define t where "t = s\<lparr>finger_count_history := drop (length p - 2) p @ [c, c, c],
                     zone_history := drop (length q - 2) q @ [z, z, z], current_zone := z\<rparr>"
  have step: "keyboard_frame i s = (None, t)"
    unfolding t_def by (rule keyboard_frame_confirmed[OF f h Cons.prems(3)])
  have "finger_count_history t = (drop (length p - 2) p @ [c]) @ [c, c]"
    "zone_history t = (drop (length q - 2) q @ [z]) @ [z, z]"
    by (simp_all add: t_def)
  then have t1: "stable_tail c z t" unfolding stable_tail_def by blast
  have t2: "gesture_confirmed t" "actions t = actions s"
    using Cons.prems(3) by (simp_all add: t_def)
  from Cons.IH[OF rest t1 t2(1)] show ?case
    using t2 by (simp add: step andthen_def)
qed

text \<open>
  The first two frames of a run that follows a differing frame still have that frame
  among the last three: they reset the counter and leave the histories stable.
\<close>

lemma after_differing_frame:
  assumes f: "shows_pair c z i1" "shows_pair c z i2"
    and h: "finger_count_history s = p @ [a, b]" "zone_history s = q @ [a', b']"
    and d: "(b, b') \<noteq> (c, z)"
  shows "fst (run_keyboard_frames [i1, i2] s) = None
         \<and> stable_tail c z (snd (run_keyboard_frames [i1, i2] s))
         \<and> \<not> gesture_confirmed (snd (run_keyboard_frames [i1, i2] s))
         \<and> confirmation_frames (snd (run_keyboard_frames [i1, i2] s)) = 0
         \<and> actions (snd (run_keyboard_frames [i1, i2] s)) = actions s
         \<and> last_gesture_time (snd (run_keyboard_frames [i1, i2] s)) = last_gesture_time s
         \<and> current_mode (snd (run_keyboard_frames [i1, i2] s)) = current_mode s
         \<and> typing_enabled (snd (run_keyboard_frames [i1, i2] s)) = typing_enabled s"
proof -
  define t where "t = s\<lparr>finger_count_history := drop (length p - 2) p @ [a, b, c],
                     zone_history := drop (length q - 2) q @ [a', b', z],
                     current_zone := z, gesture_confirmed := False, confirmation_frames := 0,
                     last_finger_count := c\<rparr>"
  have d1: "\<not> (a = b \<and> b = c \<and> a' = b' \<and> b' = z)" using d by auto
  have s1: "keyboard_frame i1 s = (None, t)"
    unfolding t_def by (rule keyboard_frame_unstable[OF f(1) h d1])
  have ht: "finger_count_history t = (drop (length p - 2) p @ [a]) @ [b, c]"
    "zone_history t = (drop (length q - 2) q @ [a']) @ [b', z]"
    by (simp_all add: t_def)
  define u where "u = t\<lparr>finger_count_history :=
                       drop (length (drop (length p - 2) p @ [a]) - 2) (drop (length p - 2) p @ [a]) @ [b, c, c],
                     zone_history :=
                       drop (length (drop (length q - 2) q @ [a']) - 2) (drop (length q - 2) q @ [a']) @ [b', z, z],
                     current_zone := z, gesture_confirmed := False, confirmation_frames := 0,
                     last_finger_count := c\<rparr>"
  have d2: "\<not> (b = c \<and> c = c \<and> b' = z \<and> z = z)" using d by auto
  have s2: "keyboard_frame i2 t = (None, u)"
    unfolding u_def by (rule keyboard_frame_unstable[OF f(2) ht d2])
  have "\<exists>p. finger_count_history u = p @ [c, c]"
    by (rule exI[of _ "drop (length (drop (length p - 2) p @ [a]) - 2) (drop (length p - 2) p @ [a]) @ [b]"])
       (simp add: u_def)
  moreover have "\<exists>q. zone_history u = q @ [z, z]"
    by (rule exI[of _ "drop (length (drop (length q - 2) q @ [a']) - 2) (drop (length q - 2) q @ [a']) @ [b']"])
       (simp add: u_def)
  ultimately have "stable_tail c z u" by (simp add: stable_tail_def)
  then show ?thesis
    by (simp add: s1 s2 andthen_def) (simp add: u_def t_def)
qed

text \<open>Nothing is emitted before the counter can have reached the required run.\<close>

lemma early_frames_silent:
  assumes run: "\<forall>i \<in> set fs. shows_pair c z i"
    and short: "length fs \<le> required_confirmation + 1"
    and hist: "finger_count_history s = p @ [a, b]" "zone_history s = q @ [a', b']"
    and differ: "(b, b') \<noteq> (c, z)"
  shows "fst (run_keyboard_frames fs s) = None \<and> actions (snd (run_keyboard_frames fs s)) = actions s"
proof (cases fs)
  case Nil
  then show ?thesis by simp
next
  case (Cons i1 fs1)
  have sp1: "shows_pair c z i1" using run Cons by simp
  show ?thesis
  proof (cases fs1)
    case Nil
    have d1: "\<not> (a = b \<and> b = c \<and> a' = b' \<and> b' = z)" using differ by auto
    show ?thesis
      using keyboard_frame_unstable[OF sp1 hist d1] by (simp add: Cons Nil andthen_def)
  next
    case (Cons i2 r)
    have fs: "fs = i1 # i2 # r" using \<open>fs = i1 # fs1\<close> Cons by simp
    have sp: "shows_pair c z i2" "\<forall>i \<in> set r. shows_pair c z i" using run fs by simp_all
    define s2 where "s2 = snd (run_keyboard_frames [i1, i2] s)"
    have p0: "fst (run_keyboard_frames [i1, i2] s) = None" "stable_tail c z s2"
      "\<not> gesture_confirmed s2" "confirmation_frames s2 = 0" "actions s2 = actions s"
      using after_differing_frame[OF sp1 sp(1) hist differ] by (simp_all add: s2_def)
    have two: "run_keyboard_frames (i1 # i2 # r) s = run_keyboard_frames r s2"
      using p0(1) run_keyboard_frames_append[of "[i1, i2]" r s]
      by (cases "run_keyboard_frames [i1, i2] s") (simp add: andthen_def s2_def)
    have "confirmation_frames s2 + length r < required_confirmation"
      using short p0(4) by (simp add: fs)
    from counting_run[OF sp(2) p0(2) p0(3) this] show ?thesis
      using p0(5) unfolding fs two by simp
  qed
qed

lemma get_hand_zone_middle: "get_hand_zone (shown_hand n (1 / 2) (1 / 2)) = Some ''mid_center''"
  by (simp add: get_hand_zone_def shown_hand_def zones_def)

lemma shows_pair_one_finger: "shows_pair 1 (Some ''mid_center'') one_finger"
  by (simp add: shows_pair_def primary_features_def one_finger_def seen_def both_hands_open_def
      count_fingers_shown_hand get_hand_zone_middle)

lemma after_two_fingers_state:
  "after_two_fingers =
     init_keyboard\<lparr>finger_count_history := [] @ [2, 2],
                   zone_history := [] @ [Some ''mid_center'', Some ''mid_center''],
                   current_zone := Some ''mid_center''\<rparr>"
  by (simp add: after_two_fingers_def keyboard_frame_def confirm_def mode_switch_def seen_def
      both_hands_open_def count_fingers_shown_hand get_hand_zone_middle deque_append_def
      andthen_def init_keyboard_def Let_def)



section \<open>The properties\<close>

subsection \<open>C1: the drag and the secondary pinch channel\<close>

lemma left_click_drag_invariant:
  "drag_implies_pinch s \<Longrightarrow> drag_implies_pinch (snd (left_click_drag f s))"
  by (simp add: drag_implies_pinch_def left_click_drag_def projections)

lemma handle_mouse_control_snd:
  "snd (handle_mouse_control f s) =
     (if fst (move_cursor f s) \<noteq> None then snd (move_cursor f s)
      else if fst (left_click_drag f (snd (move_cursor f s))) \<noteq> None
        then snd (left_click_drag f (snd (move_cursor f s)))
      else snd (right_click f (snd (left_click_drag f (snd (move_cursor f s))))))"
  by (simp add: handle_mouse_control_def projections)

lemma handle_mouse_control_invariant:
  assumes "drag_implies_pinch s"
  shows "drag_implies_pinch (snd (handle_mouse_control f s))"
proof -
  have 1: "drag_implies_pinch (snd (move_cursor f s))"
    using assms by (simp add: drag_implies_pinch_def move_cursor_fields)
  have 2: "drag_implies_pinch (snd (left_click_drag f (snd (move_cursor f s))))"
    using 1 by (rule left_click_drag_invariant)
  have 3: "drag_implies_pinch (snd (right_click f (snd (left_click_drag f (snd (move_cursor f s))))))"
    using 2 by (simp add: drag_implies_pinch_def right_click_fields)
  show ?thesis
    unfolding handle_mouse_control_snd using 1 2 3 by simp
qed

lemma recalibrate_invariant:
  "recalibrate sk s = (None, s') \<Longrightarrow> drag_implies_pinch s'"
  by (auto simp: recalibrate_def andthen_def sink_do_def drag_implies_pinch_def
      split: if_splits outcome.splits)

lemma loop_body_invariant:
  assumes "drag_implies_pinch s" "loop_body i s = Goes_on s'"
  shows "drag_implies_pinch s'"
proof -
  define r where "r = (case hands i of [] \<Rightarrow> (None, s) | h # _ \<Rightarrow> handle_mouse_control h s)"
  have inv: "drag_implies_pinch (snd r)"
    using assms(1) handle_mouse_control_invariant
    by (cases "hands i") (simp_all add: r_def)
  obtain e s1 where r: "r = (e, s1)" by (cases r)
  have s1: "drag_implies_pinch s1" using inv r by simp
  have body: "loop_body i s =
     (if \<not> ret i then Broke s
      else (case r of
           (Some e, s1) \<Rightarrow> Raised e s1
         | (None, s1) \<Rightarrow>
             if key i = 113 then Broke s1
             else if key i = 109 then Goes_on (s1\<lparr>mouse_control_enabled := \<not> mouse_control_enabled s1\<rparr>)
             else if key i = 99 then Goes_on (s1\<lparr>click_enabled := \<not> click_enabled s1\<rparr>)
             else if key i = 32 then
               (case recalibrate (key_sink i) s1 of
                  (None, s2) \<Rightarrow> Goes_on s2
                | (Some e, s2) \<Rightarrow> Raised e s2)
             else Goes_on s1))"
    by (simp add: loop_body_def r_def)
  show ?thesis
    using assms(2) s1 recalibrate_invariant[of "key_sink i" s1]
    unfolding body r
    by (auto simp: drag_implies_pinch_def split: if_splits option.splits prod.splits)
qed

lemma reachable_invariant: "reachable s \<Longrightarrow> drag_implies_pinch s"
proof (induction rule: reachable.induct)
  case reachable_init
  show ?case by (simp add: drag_implies_pinch_def init_controller_def)
next
  case (reachable_step s i s')
  then show ?case using loop_body_invariant by blast
qed

lemma right_click_arm:
  assumes "\<not> right_pinch_active s" "right_pinch_active (snd (right_click f s))"
  shows "\<not> pinch_active s"
  using assms by (simp add: right_click_def projections split: if_splits)

lemma move_cursor_right_clicks:
  "right_clicks (sent (snd (move_cursor f s))) = right_clicks (sent s)"
proof (cases "mouse_control_enabled s \<and> index_extended f")
  case False
  then have "snd (move_cursor f s) = s" unfolding move_cursor_def by auto
  then show ?thesis by simp
next
  case True
  obtain x y s1 where sm: "smooth_cursor_position (cursor_pos f) s = ((x, y), s1)"
    by (metis prod.exhaust)
  have s1: "sent s1 = sent s"
    using smooth_cursor_position_state[of "cursor_pos f" s] sm by simp
  have "move_cursor f s = try_failsafe (sink f) (MoveTo x y) id s1"
    using True sm by (simp add: move_cursor_def)
  then show ?thesis
    by (simp add: try_failsafe_snd right_clicks_def s1)
qed

lemma left_click_drag_right_clicks:
  "right_clicks (sent (snd (left_click_drag f s))) = right_clicks (sent s)"
  by (simp add: left_click_drag_def projections right_clicks_def)

lemma right_click_fires:
  assumes "right_clicks (sent (snd (right_click f s))) \<noteq> right_clicks (sent s)"
  shows "\<not> drag_mode s \<and> \<not> pinch_active s"
  using assms by (simp add: right_click_def projections right_clicks_def split: if_splits)

lemma reachable_frame:
  assumes "reachable s" "fst (handle_mouse_control f s) = None"
  shows "reachable (snd (handle_mouse_control f s))"
proof -
  have "loop_body \<lparr> ret = True, hands = [f], key = 0, key_sink = (\<lambda>c. Returns) \<rparr> s
          = Goes_on (snd (handle_mouse_control f s))"
    using assms(2) by (cases "handle_mouse_control f s") (simp add: loop_body_def)
  with assms(1) show ?thesis by (rule reachable_step)
qed

text \<open>
  C1, as the code has it. The secondary channel is never armed, and never fires, in a
  frame that leaves the primary channel armed or dragging: from a reachable state,
  whenever a call of \<^verbatim>\<open>handle_mouse_control\<close> (returning or raising) sets
  \<^verbatim>\<open>right_pinch_active\<close>, and whenever it delivers a RightClick to the sink, then after
  that call \<^verbatim>\<open>pinch_active\<close> and \<^verbatim>\<open>drag_mode\<close> are both false. (A secondary channel
  armed earlier stays armed while the primary channel arms and drags.)
\<close>

theorem C1_secondary_arm_and_fire_excluded:
  assumes "reachable s"
  shows "(\<not> right_pinch_active s \<and> right_pinch_active (snd (handle_mouse_control f s))
            \<longrightarrow> \<not> pinch_active (snd (handle_mouse_control f s))
                \<and> \<not> drag_mode (snd (handle_mouse_control f s)))
         \<and> (right_clicks (sent (snd (handle_mouse_control f s))) \<noteq> right_clicks (sent s)
            \<longrightarrow> \<not> pinch_active (snd (handle_mouse_control f s))
                \<and> \<not> drag_mode (snd (handle_mouse_control f s)))"
proof -
  define s1 where "s1 = snd (move_cursor f s)"
  define s2 where "s2 = snd (left_click_drag f s1)"
  define s3 where "s3 = snd (right_click f s2)"
  have same: "right_pinch_active s1 = right_pinch_active s" "right_pinch_active s2 = right_pinch_active s"
    "right_clicks (sent s1) = right_clicks (sent s)" "right_clicks (sent s2) = right_clicks (sent s)"
    by (simp_all add: s1_def s2_def move_cursor_fields left_click_drag_fields
        move_cursor_right_clicks left_click_drag_right_clicks)
  have last: "snd (handle_mouse_control f s) = s1 \<or> snd (handle_mouse_control f s) = s2
              \<or> snd (handle_mouse_control f s) = s3"
    unfolding handle_mouse_control_snd s1_def[symmetric] s2_def[symmetric] s3_def[symmetric]
    by simp
  have inv: "drag_implies_pinch (snd (handle_mouse_control f s))"
    using reachable_invariant[OF assms] by (rule handle_mouse_control_invariant)
  have arm: "\<not> pinch_active (snd (handle_mouse_control f s))
             \<and> \<not> drag_mode (snd (handle_mouse_control f s))"
    if a: "\<not> right_pinch_active s" "right_pinch_active (snd (handle_mouse_control f s))"
  proof -
    have final: "snd (handle_mouse_control f s) = s3" using a same last by auto
    have "right_pinch_active s3" using a(2) final by simp
    then have "\<not> pinch_active s2"
      using right_click_arm[of s2 f] a(1) same by (simp add: s3_def)
    then have np: "\<not> pinch_active s3" by (simp add: s3_def right_click_fields)
    then show ?thesis using inv final by (simp add: drag_implies_pinch_def)
  qed
  have fire: "\<not> pinch_active (snd (handle_mouse_control f s))
             \<and> \<not> drag_mode (snd (handle_mouse_control f s))"
    if a: "right_clicks (sent (snd (handle_mouse_control f s))) \<noteq> right_clicks (sent s)"
  proof -
    have final: "snd (handle_mouse_control f s) = s3" using a same last by auto
    then have "right_clicks (sent (snd (right_click f s2))) \<noteq> right_clicks (sent s2)"
      using a same by (simp add: s3_def)
    then have "\<not> drag_mode s2 \<and> \<not> pinch_active s2" by (rule right_click_fires)
    then show ?thesis by (simp add: final s3_def right_click_fields)
  qed
  show ?thesis using arm fire by blast
qed

text \<open>
  The secondary channel arms first (thumb and middle finger 20 px apart, thumb and index
  60 px), then the primary channel arms (thumb and index 20 px) and, held for 0.5 s,
  starts a drag: \<^verbatim>\<open>drag_mode\<close> and \<^verbatim>\<open>right_pinch_active\<close> hold together.
\<close>

theorem C1_counterexample:
  "fst (run_frames [pointing 100 60 20, pointing (100 + 1 / 10) 20 20, pointing (100 + 6 / 10) 20 20]
          init_controller) = None
   \<and> drag_mode (snd (run_frames [pointing 100 60 20, pointing (100 + 1 / 10) 20 20,
          pointing (100 + 6 / 10) 20 20] init_controller))
   \<and> right_pinch_active (snd (run_frames [pointing 100 60 20, pointing (100 + 1 / 10) 20 20,
          pointing (100 + 6 / 10) 20 20] init_controller))"
  by (simp add: pointing_def init_controller_def
      handle_mouse_control_def move_cursor_def left_click_drag_def right_click_def andthen_def
      try_failsafe_def sink_do_def smooth_cursor_position_def deque_append_def linspace_def py_int_def
      pinch_on_def pinch_off_def right_on_def right_off_def click_debounce_def drag_hold_threshold_def
      click_max_duration_def right_click_hold_threshold_def right_click_debounce_def Let_def upt_rec)

theorem C1_secondary_arm_and_fire_witness:
  "right_pinch_active (snd (handle_mouse_control (pointing 100 60 20) init_controller))
   \<and> \<not> pinch_active (snd (handle_mouse_control (pointing 100 60 20) init_controller))
   \<and> \<not> drag_mode (snd (handle_mouse_control (pointing 100 60 20) init_controller))
   \<and> right_clicks (sent (snd (handle_mouse_control (pointing 100 60 20) init_controller))) = 0
   \<and> right_clicks (sent (snd (handle_mouse_control (pointing (100 + 5 / 10) 60 60)
          (snd (handle_mouse_control (pointing 100 60 20) init_controller))))) = 1
   \<and> \<not> pinch_active (snd (handle_mouse_control (pointing (100 + 5 / 10) 60 60)
          (snd (handle_mouse_control (pointing 100 60 20) init_controller))))
   \<and> \<not> drag_mode (snd (handle_mouse_control (pointing (100 + 5 / 10) 60 60)
          (snd (handle_mouse_control (pointing 100 60 20) init_controller))))"
proof -
  note defs = pointing_def init_controller_def right_clicks_def
      handle_mouse_control_def move_cursor_def left_click_drag_def right_click_def andthen_def
      try_failsafe_def sink_do_def smooth_cursor_position_def deque_append_def linspace_def py_int_def
      pinch_on_def pinch_off_def right_on_def right_off_def click_debounce_def drag_hold_threshold_def
      click_max_duration_def right_click_hold_threshold_def right_click_debounce_def Let_def upt_rec
  have a: "\<not> right_pinch_active init_controller" by (simp add: init_controller_def)
  have b: "right_pinch_active (snd (handle_mouse_control (pointing 100 60 20) init_controller))"
    by (simp add: defs)
  have r: "reachable (snd (handle_mouse_control (pointing 100 60 20) init_controller))"
    by (rule reachable_frame[OF reachable_init]) (simp add: defs)
  have c: "right_clicks (sent (snd (handle_mouse_control (pointing 100 60 20) init_controller))) = 0"
    "right_clicks (sent (snd (handle_mouse_control (pointing (100 + 5 / 10) 60 60)
          (snd (handle_mouse_control (pointing 100 60 20) init_controller))))) = 1"
    by (simp_all add: defs)
  show ?thesis
    using C1_secondary_arm_and_fire_excluded[OF reachable_init, of "pointing 100 60 20"]
      C1_secondary_arm_and_fire_excluded[OF r, of "pointing (100 + 5 / 10) 60 60"] a b c
    by simp
qed


subsection \<open>C2: a pinch held for at least the drag threshold\<close>

text \<open>While the pinch is held, the drag starts at the first frame that sees the hold time reach the threshold.\<close>

lemma held_run_drag:
  assumes "click_enabled s" "pinch_active s"
    and "\<forall>f \<in> set fs. all_return f \<and> \<not> released f"
  shows "pinch_started_at (snd (run_frames fs s)) = pinch_started_at s
         \<and> drag_mode (snd (run_frames fs s)) =
             (drag_mode s \<or> (\<exists>h \<in> set fs. drag_hold_threshold \<le> now h - pinch_started_at s))
         \<and> primary_events (sent (snd (run_frames fs s))) = primary_events (sent s) @
             (if \<not> drag_mode s \<and> (\<exists>h \<in> set fs. drag_hold_threshold \<le> now h - pinch_started_at s)
              then [MouseDown] else [])"
  using assms
proof (induction fs arbitrary: s)
  case Nil
  then show ?case by simp
next
  case (Cons f fs)
  then have r: "all_return f" and nr: "\<not> released f" by simp_all
  have g: "only_failsafe f" using r by (rule all_return_only_failsafe)
  have down: "sink f MouseDown = Returns" using r by (simp add: all_return_def)
  define t where "t = snd (handle_mouse_control f s)"
  have 1: "fst (handle_mouse_control f s) = None" "click_enabled t" "pinch_active t"
    "pinch_started_at t = pinch_started_at s"
    "drag_mode t = (drag_mode s \<or> drag_hold_threshold \<le> now f - pinch_started_at s)"
    "primary_events (sent t) = primary_events (sent s) @
       (if \<not> drag_mode s \<and> drag_hold_threshold \<le> now f - pinch_started_at s then [MouseDown] else [])"
    unfolding t_def using Cons.prems(1,2) nr down
    by (simp_all add: handle_mouse_control_primary[OF g])
  have "\<forall>f \<in> set fs. all_return f \<and> \<not> released f" using Cons.prems(3) by simp
  from Cons.IH[OF 1(2) 1(3) this]
  have ih: "pinch_started_at (snd (run_frames fs t)) = pinch_started_at t"
    "drag_mode (snd (run_frames fs t)) =
       (drag_mode t \<or> (\<exists>h \<in> set fs. drag_hold_threshold \<le> now h - pinch_started_at t))"
    "primary_events (sent (snd (run_frames fs t))) = primary_events (sent t) @
       (if \<not> drag_mode t \<and> (\<exists>h \<in> set fs. drag_hold_threshold \<le> now h - pinch_started_at t)
        then [MouseDown] else [])"
    by simp_all
  have run: "snd (run_frames (f # fs) s) = snd (run_frames fs t)"
    using 1(1) by (simp add: andthen_snd t_def)
  show ?case
    unfolding run ih 1(4,5,6) by auto
qed

text \<open>
  C2, as the code has it. An arm cycle of the primary channel: from an idle channel the
  frame \<open>a\<close> arms at time \<open>now a\<close>, the frames \<open>hs\<close> keep the pinch, the frame \<open>r\<close>
  releases, every sink call returns. If the held duration \<open>now r - now a\<close> is at least
  \<open>drag_hold_threshold\<close>, then Click is never emitted for the cycle and the channel is
  idle again after the release. The cycle emits exactly DragStart, DragEnd (mouseDown,
  mouseUp) when some frame before the release saw the hold time reach the threshold;
  when no frame did, the release emits nothing.
\<close>

theorem C2_long_hold_never_clicks:
  assumes enabled: "click_enabled s" and idle: "\<not> pinch_active s" "\<not> drag_mode s"
    and arm: "arming a"
    and hold: "\<forall>h \<in> set hs. \<not> released h"
    and release: "released r"
    and sinks: "\<forall>f \<in> set (a # hs @ [r]). all_return f"
    and long: "drag_hold_threshold \<le> now r - now a"
  shows "fst (run_frames (a # hs @ [r]) s) = None
         \<and> \<not> pinch_active (snd (run_frames (a # hs @ [r]) s))
         \<and> \<not> drag_mode (snd (run_frames (a # hs @ [r]) s))
         \<and> primary_events (sent (snd (run_frames (a # hs @ [r]) s))) = primary_events (sent s) @
             (if \<exists>h \<in> set hs. drag_hold_threshold \<le> now h - now a then [MouseDown, MouseUp] else [])"
proof -
  have ga: "only_failsafe a" and gr: "only_failsafe r" and up: "sink r MouseUp = Returns"
    using sinks by (simp_all add: all_return_only_failsafe all_return_def)
  define s1 where "s1 = snd (handle_mouse_control a s)"
  have p1: "fst (handle_mouse_control a s) = None" "click_enabled s1" "pinch_active s1"
    "pinch_started_at s1 = now a" "\<not> drag_mode s1" "primary_events (sent s1) = primary_events (sent s)"
    unfolding s1_def using enabled idle arm by (simp_all add: handle_mouse_control_primary[OF ga])
  have hs: "\<forall>f \<in> set hs. all_return f \<and> \<not> released f" using sinks hold by simp
  then have hs': "\<forall>f \<in> set hs. only_failsafe f \<and> \<not> released f"
    by (simp add: all_return_only_failsafe)
  define s2 where "s2 = snd (run_frames hs s1)"
  define dragged where "dragged = (\<exists>h \<in> set hs. drag_hold_threshold \<le> now h - now a)"
  have p2: "fst (run_frames hs s1) = None" "click_enabled s2" "pinch_active s2"
    using held_run[OF p1(2) p1(3) hs'] by (simp_all add: s2_def)
  have p2': "pinch_started_at s2 = now a" "drag_mode s2 = dragged"
    "primary_events (sent s2) = primary_events (sent s) @ (if dragged then [MouseDown] else [])"
    using held_run_drag[OF p1(2) p1(3) hs] p1(4,5,6) by (simp_all add: s2_def dragged_def)
  define s3 where "s3 = snd (handle_mouse_control r s2)"
  have slow: "\<not> now r - now a \<le> click_max_duration"
    using long by (simp add: drag_hold_threshold_def click_max_duration_def)
  have p3: "fst (handle_mouse_control r s2) = None" "\<not> pinch_active s3" "\<not> drag_mode s3"
    "primary_events (sent s3) = primary_events (sent s) @ (if dragged then [MouseDown, MouseUp] else [])"
    unfolding s3_def using p2 p2' release up slow
    by (simp_all add: handle_mouse_control_primary[OF gr])
  have run: "fst (run_frames (a # hs @ [r]) s) = None" "snd (run_frames (a # hs @ [r]) s) = s3"
    using p1(1) p2(1) p3(1)
    by (simp_all add: run_frames_append andthen_fst andthen_snd s1_def[symmetric] s2_def[symmetric] s3_def[symmetric])
  show ?thesis
    unfolding run using p3 by (simp add: dragged_def)
qed

text \<open>
  A pinch arms at time 10, is still held in the frames at 10.2 and 10.33, and is
  released in the frame at 10.36: the hold lasted longer than \<open>drag_hold_threshold\<close>,
  yet no frame before the release saw the threshold reached. The channel never
  escalates to a drag, and the cycle emits neither DragStart nor DragEnd.
\<close>

theorem C2_counterexample:
  "arming (pointing 10 30 100)
   \<and> \<not> released (pointing (10 + 2 / 10) 30 100) \<and> \<not> released (pointing (10 + 33 / 100) 30 100)
   \<and> released (pointing (10 + 36 / 100) 50 100)
   \<and> drag_hold_threshold \<le> now (pointing (10 + 36 / 100) 50 100) - now (pointing 10 30 100)
   \<and> \<not> drag_mode (snd (run_frames [pointing 10 30 100, pointing (10 + 2 / 10) 30 100,
          pointing (10 + 33 / 100) 30 100] init_controller))
   \<and> primary_events (sent (snd (run_frames [pointing 10 30 100, pointing (10 + 2 / 10) 30 100,
          pointing (10 + 33 / 100) 30 100, pointing (10 + 36 / 100) 50 100] init_controller))) = []"
  by (simp add: pointing_def init_controller_def primary_events_def arming_def released_def
      handle_mouse_control_def move_cursor_def left_click_drag_def right_click_def andthen_def
      try_failsafe_def sink_do_def smooth_cursor_position_def deque_append_def linspace_def py_int_def
      pinch_on_def pinch_off_def right_on_def right_off_def click_debounce_def drag_hold_threshold_def
      click_max_duration_def right_click_hold_threshold_def right_click_debounce_def Let_def upt_rec)

theorem C2_long_hold_witness:
  "fst (run_frames (pointing 10 30 100 # [pointing (10 + 2 / 10) 40 100, pointing (10 + 4 / 10) 40 100]
          @ [pointing (10 + 6 / 10) 50 100]) init_controller) = None
   \<and> \<not> pinch_active (snd (run_frames (pointing 10 30 100 #
          [pointing (10 + 2 / 10) 40 100, pointing (10 + 4 / 10) 40 100]
          @ [pointing (10 + 6 / 10) 50 100]) init_controller))
   \<and> \<not> drag_mode (snd (run_frames (pointing 10 30 100 #
          [pointing (10 + 2 / 10) 40 100, pointing (10 + 4 / 10) 40 100]
          @ [pointing (10 + 6 / 10) 50 100]) init_controller))
   \<and> primary_events (sent (snd (run_frames (pointing 10 30 100 #
          [pointing (10 + 2 / 10) 40 100, pointing (10 + 4 / 10) 40 100]
          @ [pointing (10 + 6 / 10) 50 100]) init_controller))) = [MouseDown, MouseUp]"
proof -
  have "primary_events (sent init_controller) = []"
    by (simp add: init_controller_def primary_events_def)
  moreover have "\<exists>h \<in> set [pointing (10 + 2 / 10) 40 100, pointing (10 + 4 / 10) 40 100].
      drag_hold_threshold \<le> now h - now (pointing 10 30 100)"
    by (simp add: pointing_def drag_hold_threshold_def)
  ultimately show ?thesis
    using C2_long_hold_never_clicks[of init_controller "pointing 10 30 100"
      "[pointing (10 + 2 / 10) 40 100, pointing (10 + 4 / 10) 40 100]" "pointing (10 + 6 / 10) 50 100"]
    by (simp add: init_controller_def pointing_def arming_def released_def all_return_def
        pinch_on_def pinch_off_def drag_hold_threshold_def)
qed


subsection \<open>C3: hysteresis of the primary pinch channel\<close>

text \<open>
  C3. Let the thumb-index distance start above \<open>pinch_off\<close> (frames \<open>pre\<close>), dip below
  \<open>pinch_on\<close> (frames \<open>dip\<close>, at least one), stay strictly inside the band
  \<open>(pinch_on, pinch_off)\<close> for any number of frames (\<open>band\<close>) and then rise above
  \<open>pinch_off\<close> (frame \<open>r\<close>), with the index finger extended throughout, click control
  enabled and the channel idle at the start. Then the run completes, \<^verbatim>\<open>pinch_active\<close>
  is set exactly once and cleared exactly once: no re-arming inside the band.
\<close>

theorem C3_hysteresis_one_arm_one_release:
  assumes enabled: "click_enabled s" and idle: "\<not> pinch_active s"
    and ext: "\<forall>f \<in> set (pre @ dip @ band @ [r]). index_extended f \<and> only_failsafe f"
    and pre: "\<forall>f \<in> set pre. pinch_off < thumb_index_distance f"
    and dip: "dip \<noteq> []" "\<forall>f \<in> set dip. thumb_index_distance f < pinch_on"
    and band: "\<forall>f \<in> set band. pinch_on < thumb_index_distance f \<and> thumb_index_distance f < pinch_off"
    and rise: "pinch_off < thumb_index_distance r"
  shows "fst (run_frames (pre @ dip @ band @ [r]) s) = None
         \<and> arms (pre @ dip @ band @ [r]) s = 1
         \<and> releases (pre @ dip @ band @ [r]) s = 1
         \<and> \<not> pinch_active (snd (run_frames (pre @ dip @ band @ [r]) s))"
proof -
  obtain d ds where dip_eq: "dip = d # ds" using dip(1) by (cases dip) auto
  define held where "held = ds @ band"
  \<comment> \<open>phase 1: above the band, nothing happens\<close>
  have "\<forall>f \<in> set pre. only_failsafe f \<and> \<not> arming f"
    using ext pre by (auto simp: arming_def pinch_on_def pinch_off_def)
  from idle_run[OF enabled idle this]
  have p1: "fst (run_frames pre s) = None" "click_enabled (snd (run_frames pre s))"
    "\<not> pinch_active (snd (run_frames pre s))" "arms pre s = 0" "releases pre s = 0"
    by simp_all
  define s1 where "s1 = snd (run_frames pre s)"
  \<comment> \<open>phase 2: the first frame below \<open>pinch_on\<close> arms\<close>
  have gd: "only_failsafe d" and ad: "arming d"
    using ext dip(2) by (simp_all add: dip_eq arming_def)
  define s2 where "s2 = snd (handle_mouse_control d s1)"
  have p2: "fst (handle_mouse_control d s1) = None" "click_enabled s2" "pinch_active s2"
    using p1(2,3) ad unfolding s1_def s2_def by (simp_all add: handle_mouse_control_primary[OF gd])
  \<comment> \<open>phase 3: below \<open>pinch_off\<close> the channel stays armed\<close>
  have "\<forall>f \<in> set held. only_failsafe f \<and> \<not> released f"
    using ext dip(2) band by (auto simp: held_def dip_eq released_def pinch_on_def pinch_off_def)
  from held_run[OF p2(2) p2(3) this]
  have p3: "fst (run_frames held s2) = None" "click_enabled (snd (run_frames held s2))"
    "pinch_active (snd (run_frames held s2))" "arms held s2 = 0" "releases held s2 = 0"
    by simp_all
  define s3 where "s3 = snd (run_frames held s2)"
  \<comment> \<open>phase 4: the frame above \<open>pinch_off\<close> releases\<close>
  have gr: "only_failsafe r" and rr: "released r"
    using ext rise by (simp_all add: released_def)
  define s4 where "s4 = snd (handle_mouse_control r s3)"
  have p4: "fst (handle_mouse_control r s3) = None" "\<not> pinch_active s4"
    using p3(2,3) rr unfolding s3_def s4_def by (simp_all add: handle_mouse_control_primary[OF gr])
  have split: "pre @ dip @ band @ [r] = pre @ (d # (held @ [r]))"
    by (simp add: dip_eq held_def)
  note facts = p1 p2 p3 p4 s1_def[symmetric] s2_def[symmetric] s3_def[symmetric] s4_def[symmetric]
  have "fst (run_frames (pre @ (d # (held @ [r]))) s) = None"
    using facts by (simp add: run_frames_append andthen_fst andthen_snd)
  moreover have "\<not> pinch_active (snd (run_frames (pre @ (d # (held @ [r]))) s))"
    using facts by (simp add: run_frames_append andthen_fst andthen_snd)
  moreover have "arms (pre @ (d # (held @ [r]))) s = 1"
    using facts by (simp add: arms_append andthen_fst andthen_snd)
  moreover have "releases (pre @ (d # (held @ [r]))) s = 1"
    using facts by (simp add: releases_append andthen_fst andthen_snd)
  ultimately show ?thesis
    unfolding split by simp
qed

theorem C3_hysteresis_witness:
  "fst (run_frames ([pointing 0 50 100] @ [pointing 1 30 100] @ [pointing 2 40 100, pointing 3 38 100]
          @ [pointing 4 50 100]) init_controller) = None
   \<and> arms ([pointing 0 50 100] @ [pointing 1 30 100] @ [pointing 2 40 100, pointing 3 38 100]
          @ [pointing 4 50 100]) init_controller = 1
   \<and> releases ([pointing 0 50 100] @ [pointing 1 30 100] @ [pointing 2 40 100, pointing 3 38 100]
          @ [pointing 4 50 100]) init_controller = 1
   \<and> \<not> pinch_active (snd (run_frames ([pointing 0 50 100] @ [pointing 1 30 100]
          @ [pointing 2 40 100, pointing 3 38 100] @ [pointing 4 50 100]) init_controller))"
  by (rule C3_hysteresis_one_arm_one_release)
     (simp_all add: init_controller_def pointing_def only_failsafe_def pinch_on_def pinch_off_def)


subsection \<open>C4: the confirmation run of the zone-typing channel\<close>

text \<open>
  C4, as the code has it. Let the pair (finger count \<open>c\<close>, zone \<open>z\<close>) be shown by the
  frames \<open>fs\<close>, immediately after a frame with a different pair (the last entries \<open>b\<close>,
  \<open>b'\<close> of the two histories, which hold two frames at least), with typing enabled and
  no two-hand gesture. The
  stability test looks at the last three frames, so the first two frames of the run do
  not count. If the run has at least \<open>required_confirmation + 2\<close> frames, and at the
  frame number \<open>required_confirmation + 2\<close> the debounce time has elapsed and the pair
  has a symbol \<open>act\<close>, then the run emits exactly that one symbol: nothing within the
  first \<open>required_confirmation + 1\<close> frames (so a run of exactly
  \<open>required_confirmation\<close> frames emits nothing), the symbol at frame number
  \<open>required_confirmation + 2\<close>, and nothing on the later frames of the run.
\<close>

theorem C4_one_symbol_per_stable_run:
  assumes run: "\<forall>i \<in> set fs. shows_pair c z i"
    and long: "required_confirmation + 2 \<le> length fs"
    and hist: "finger_count_history s = p @ [a, b]" "zone_history s = q @ [a', b']"
    and differ: "(b, b') \<noteq> (c, z)"
    and typing: "typing_enabled s"
    and symbol: "process_gesture (clock_gesture (fs ! (required_confirmation + 1))) c z s = Inr (Some act)"
  shows "fst (run_keyboard_frames fs s) = None
         \<and> (\<forall>n \<le> required_confirmation + 1. actions (snd (run_keyboard_frames (take n fs) s)) = actions s)
         \<and> actions (snd (run_keyboard_frames (take (required_confirmation + 2) fs) s)) = actions s @ [act]
         \<and> actions (snd (run_keyboard_frames fs s)) = actions s @ [act]"
proof -
  obtain i1 i2 r where fs: "fs = i1 # i2 # r"
    using long by (cases fs; cases "tl fs") (auto simp: required_confirmation_def)
  have len: "8 \<le> length r" using long by (simp add: fs required_confirmation_def)
  define mid where "mid = take 7 r"
  define i10 where "i10 = r ! 7"
  define rest where "rest = drop 8 r"
  have r: "r = mid @ i10 # rest"
    unfolding mid_def i10_def rest_def using len id_take_nth_drop[of 7 r] by simp
  have lm: "length mid = 7" using len by (simp add: mid_def)
  have sp: "shows_pair c z i1" "shows_pair c z i2" "\<forall>i \<in> set r. shows_pair c z i"
    using run by (simp_all add: fs)
  \<comment> \<open>the two frames that still see the differing frame\<close>
  define s2 where "s2 = snd (run_keyboard_frames [i1, i2] s)"
  have p0: "fst (run_keyboard_frames [i1, i2] s) = None" "stable_tail c z s2"
    "\<not> gesture_confirmed s2" "confirmation_frames s2 = 0" "actions s2 = actions s"
    "last_gesture_time s2 = last_gesture_time s" "current_mode s2 = current_mode s"
    "typing_enabled s2 = typing_enabled s"
    using after_differing_frame[OF sp(1) sp(2) hist differ] by (simp_all add: s2_def)
  have two: "run_keyboard_frames (i1 # i2 # xs) s = run_keyboard_frames xs s2" for xs
    using p0(1) run_keyboard_frames_append[of "[i1, i2]" xs s]
    by (cases "run_keyboard_frames [i1, i2] s") (simp add: andthen_def s2_def)
  \<comment> \<open>counting frames\<close>
  have count: "fst (run_keyboard_frames xs s2) = None
         \<and> stable_tail c z (snd (run_keyboard_frames xs s2))
         \<and> \<not> gesture_confirmed (snd (run_keyboard_frames xs s2))
         \<and> confirmation_frames (snd (run_keyboard_frames xs s2)) = length xs
         \<and> actions (snd (run_keyboard_frames xs s2)) = actions s
         \<and> last_gesture_time (snd (run_keyboard_frames xs s2)) = last_gesture_time s
         \<and> current_mode (snd (run_keyboard_frames xs s2)) = current_mode s
         \<and> typing_enabled (snd (run_keyboard_frames xs s2))"
    if "set xs \<subseteq> set r" "length xs \<le> 7" for xs
  proof -
    have "\<forall>i \<in> set xs. shows_pair c z i" using that(1) sp(3) by blast
    moreover have "confirmation_frames s2 + length xs < required_confirmation"
      using that(2) p0(4) by (simp add: required_confirmation_def)
    ultimately show ?thesis
      using counting_run[of xs c z s2] p0 typing by simp
  qed
  have early: "actions (snd (run_keyboard_frames (take n fs) s)) = actions s"
    if n: "n \<le> required_confirmation + 1" for n
  proof -
    have "\<forall>i \<in> set (take n fs). shows_pair c z i" using run in_set_takeD by fast
    moreover have "length (take n fs) \<le> required_confirmation + 1" using n by simp
    ultimately show ?thesis
      using early_frames_silent[of "take n fs" c z s p a b q a' b'] hist differ by simp
  qed
  \<comment> \<open>the confirming frame\<close>
  define s9 where "s9 = snd (run_keyboard_frames mid s2)"
  have p9: "fst (run_keyboard_frames mid s2) = None" "stable_tail c z s9" "\<not> gesture_confirmed s9"
    "confirmation_frames s9 = 7" "actions s9 = actions s" "last_gesture_time s9 = last_gesture_time s"
    "current_mode s9 = current_mode s" "typing_enabled s9"
  proof -
    have "set mid \<subseteq> set r" unfolding mid_def by (rule set_take_subset)
    from count[OF this] lm show "fst (run_keyboard_frames mid s2) = None" "stable_tail c z s9"
      "\<not> gesture_confirmed s9" "confirmation_frames s9 = 7" "actions s9 = actions s"
      "last_gesture_time s9 = last_gesture_time s" "current_mode s9 = current_mode s" "typing_enabled s9"
      by (simp_all add: s9_def)
  qed
  obtain p9 q9 where h9: "finger_count_history s9 = p9 @ [c, c]" "zone_history s9 = q9 @ [z, z]"
    using p9(2) by (auto simp: stable_tail_def)
  have "fs ! (required_confirmation + 1) = i10"
    by (simp add: fs r lm required_confirmation_def nth_append)
  then have "process_gesture (clock_gesture i10) c z s = Inr (Some act)" using symbol by simp
  then have pg: "process_gesture (clock_gesture i10) c z s9 = Inr (Some act)"
    using process_gesture_reads[OF p9(6) p9(7)] by simp
  have ne: "act \<noteq> []" using pg by (rule process_gesture_nonempty)
  have s10f: "shows_pair c z i10" using sp(3) r by auto
  have c7: "confirmation_frames s9 + 1 = required_confirmation"
    using p9(4) by (simp add: required_confirmation_def)
  define s10 where "s10 = snd (keyboard_frame i10 s9)"
  have p10: "fst (keyboard_frame i10 s9) = None" "stable_tail c z s10" "gesture_confirmed s10"
    "actions s10 = actions s @ [act]"
    using keyboard_frame_confirming[OF s10f h9 p9(3) c7 p9(8) pg ne] p9(5) by (simp_all add: s10_def)
  \<comment> \<open>the frames after the confirmation\<close>
  have "\<forall>i \<in> set rest. shows_pair c z i" using sp(3) r by auto
  from confirmed_run[OF this p10(2) p10(3)]
  have p11: "fst (run_keyboard_frames rest s10) = None"
    "actions (snd (run_keyboard_frames rest s10)) = actions s @ [act]"
    using p10(4) by simp_all
  have ten: "take (required_confirmation + 2) fs = i1 # i2 # (mid @ [i10])"
    by (simp add: fs r lm required_confirmation_def)
  have a10: "actions (snd (run_keyboard_frames (take (required_confirmation + 2) fs) s)) = actions s @ [act]"
    unfolding ten two using p9(1) p10(1,4)
    by (simp add: run_keyboard_frames_append andthen_fst andthen_snd s9_def[symmetric] s10_def[symmetric])
  have whole: "fs = i1 # i2 # (mid @ ([i10] @ rest))" by (simp add: fs r)
  have all: "fst (run_keyboard_frames fs s) = None
             \<and> actions (snd (run_keyboard_frames fs s)) = actions s @ [act]"
    unfolding whole two using p9(1) p10(1) p11
    by (simp add: run_keyboard_frames_append andthen_fst andthen_snd s9_def[symmetric] s10_def[symmetric])
  show ?thesis using all early a10 by blast
qed

text \<open>
  After two frames with two fingers, one finger is shown in the same zone for exactly
  \<open>required_confirmation\<close> frames, with typing enabled, the debounce time elapsed and
  the symbol \<open>e\<close> mapped to the pair: nothing is emitted.
\<close>

theorem C4_counterexample:
  "length (replicate 8 one_finger) = required_confirmation
   \<and> primary_features one_finger = Some (1, Some ''mid_center'')
   \<and> (last (finger_count_history after_two_fingers), last (zone_history after_two_fingers))
        = (2, Some ''mid_center'')
   \<and> typing_enabled after_two_fingers
   \<and> process_gesture (clock_gesture one_finger) 1 (Some ''mid_center'') after_two_fingers = Inr (Some ''e'')
   \<and> fst (run_keyboard_frames (replicate 8 one_finger) after_two_fingers) = None
   \<and> actions (snd (run_keyboard_frames (replicate 8 one_finger) after_two_fingers)) = []"
proof -
  have f: "primary_features one_finger = Some (1, Some ''mid_center'')"
    using shows_pair_one_finger by (simp add: shows_pair_def)
  have s: "typing_enabled after_two_fingers" "actions after_two_fingers = []"
    "(last (finger_count_history after_two_fingers), last (zone_history after_two_fingers))
        = (2, Some ''mid_center'')"
    by (simp_all add: after_two_fingers_state init_keyboard_def)
  have g: "process_gesture (clock_gesture one_finger) 1 (Some ''mid_center'') after_two_fingers = Inr (Some ''e'')"
    by (simp add: after_two_fingers_state init_keyboard_def process_gesture_def one_finger_def seen_def
        gesture_debounce_def truthy_def character_maps_def singles_def get_zone_index_def Let_def)
  have h: "finger_count_history after_two_fingers = [] @ [2, 2]"
    "zone_history after_two_fingers = [] @ [Some ''mid_center'', Some ''mid_center'']"
    by (simp_all add: after_two_fingers_state)
  have r: "\<forall>i \<in> set (replicate 8 one_finger). shows_pair 1 (Some ''mid_center'') i"
    using shows_pair_one_finger by simp
  have l: "length (replicate 8 one_finger) \<le> required_confirmation + 1"
    by (simp add: required_confirmation_def)
  have d: "(2, Some ''mid_center'') \<noteq> (1::nat, Some ''mid_center'')" by simp
  have "fst (run_keyboard_frames (replicate 8 one_finger) after_two_fingers) = None
      \<and> actions (snd (run_keyboard_frames (replicate 8 one_finger) after_two_fingers))
          = actions after_two_fingers"
    by (rule early_frames_silent[OF r l h d])
  then show ?thesis
    using f s g by (simp add: required_confirmation_def)
qed

theorem C4_one_symbol_witness:
  "fst (run_keyboard_frames (replicate 12 one_finger) after_two_fingers) = None
   \<and> actions (snd (run_keyboard_frames (take 9 (replicate 12 one_finger)) after_two_fingers)) = []
   \<and> actions (snd (run_keyboard_frames (take 10 (replicate 12 one_finger)) after_two_fingers)) = [''e'']
   \<and> actions (snd (run_keyboard_frames (replicate 12 one_finger) after_two_fingers)) = [''e'']"
proof -
  have s: "typing_enabled after_two_fingers" "actions after_two_fingers = []"
    by (simp_all add: after_two_fingers_state init_keyboard_def)
  have g: "process_gesture (clock_gesture (replicate 12 one_finger ! (required_confirmation + 1))) 1
             (Some ''mid_center'') after_two_fingers = Inr (Some ''e'')"
    by (simp add: after_two_fingers_state init_keyboard_def process_gesture_def one_finger_def seen_def
        gesture_debounce_def truthy_def character_maps_def singles_def get_zone_index_def Let_def
        required_confirmation_def)
  have h: "finger_count_history after_two_fingers = [] @ [2, 2]"
    "zone_history after_two_fingers = [] @ [Some ''mid_center'', Some ''mid_center'']"
    by (simp_all add: after_two_fingers_state)
  have r: "\<forall>i \<in> set (replicate 12 one_finger). shows_pair 1 (Some ''mid_center'') i"
    using shows_pair_one_finger by simp
  have l: "required_confirmation + 2 \<le> length (replicate 12 one_finger)"
    by (simp add: required_confirmation_def)
  have d: "(2, Some ''mid_center'') \<noteq> (1::nat, Some ''mid_center'')" by simp
  have n: "(9::nat) \<le> required_confirmation + 1" "required_confirmation + 2 = 10"
    by (simp_all add: required_confirmation_def)
  show ?thesis
    using C4_one_symbol_per_stable_run[OF r l h d s(1) g] s(2) n by (metis append_Nil)
qed


subsection \<open>C5: the lookup of \<^verbatim>\<open>process_gesture\<close> in a mode without a table\<close>

text \<open>
  C5. The mode SYMBOLS is an element of \<^verbatim>\<open>self.modes\<close>, reached from the initial mode by
  two mode changes, and \<^verbatim>\<open>character_maps\<close> has no table for it. There
  \<^verbatim>\<open>process_gesture\<close>, called with one finger in the zone \<open>top_left\<close> after the debounce
  time, does not return: the subscript \<^verbatim>\<open>self.character_maps[self.current_mode]\<close> raises
  \<^verbatim>\<open>KeyError\<close>.
\<close>

theorem C5_symbols_mode_raises_KeyError:
  "current_mode (change_mode (change_mode init_keyboard)) \<in> set modes
   \<and> map_of character_maps (current_mode (change_mode (change_mode init_keyboard))) = None
   \<and> process_gesture 100 1 (Some ''top_left'') (change_mode (change_mode init_keyboard)) = Inl KeyError"
  by (simp add: process_gesture_def change_mode_def init_keyboard_def modes_def character_maps_def
      gesture_debounce_def truthy_def Let_def)


subsection \<open>C6: failures of the input sink\<close>

text \<open>\<^verbatim>\<open>execute_action\<close> changes nothing but the text buffer and the trace of sink calls.\<close>

lemma execute_action_state:
  "(snd (execute_action sk a s))\<lparr>current_text := t, sent := l\<rparr> = s\<lparr>current_text := t, sent := l\<rparr>"
  by (simp add: execute_action_def try_exception_def sink_do_snd)

lemma move_cursor_same:
  "(snd (move_cursor (f\<lparr>sink := sk\<rparr>) s))\<lparr>sent := c\<rparr> = (snd (move_cursor f s))\<lparr>sent := c\<rparr>"
  by (simp add: move_cursor_def try_failsafe_snd split: prod.splits)

lemma only_failsafe_returns: "only_failsafe (f\<lparr>sink := (\<lambda>c. Returns)\<rparr>)"
  by (simp add: only_failsafe_def)

lemma try_failsafe_returns:
  "try_failsafe (\<lambda>c. Returns) c g s = (None, g (s\<lparr>sent := sent s @ [c]\<rparr>))"
  by (simp add: try_failsafe_def sink_do_def)

lemma left_click_drag_same:
  assumes "only_failsafe f"
  shows "(snd (left_click_drag (f\<lparr>sink := (\<lambda>c. Returns)\<rparr>) (x\<lparr>sent := l\<rparr>)))\<lparr>sent := c, last_click_time := a\<rparr>
         = (snd (left_click_drag f x))\<lparr>sent := c, last_click_time := a\<rparr>"
  by (simp add: left_click_drag_def andthen_def try_failsafe_guarded[OF assms]
      try_failsafe_returns)

lemma right_click_same:
  assumes "only_failsafe f"
  shows "(snd (right_click (f\<lparr>sink := (\<lambda>c. Returns)\<rparr>) (x\<lparr>sent := l, last_click_time := t\<rparr>)))
            \<lparr>sent := c, last_click_time := a, last_right_click_time := b\<rparr>
         = (snd (right_click f x))\<lparr>sent := c, last_click_time := a, last_right_click_time := b\<rparr>"
  by (simp add: right_click_def andthen_def try_failsafe_guarded[OF assms]
      try_failsafe_returns)

lemma same_but_sent:
  fixes x y :: controller
  shows "y\<lparr>sent := c\<rparr> = x\<lparr>sent := c\<rparr> \<Longrightarrow> y = x\<lparr>sent := sent y\<rparr>"
  by (cases x, cases y) simp

lemma same_but_sent_click:
  fixes x y :: controller
  shows "y\<lparr>sent := c, last_click_time := a\<rparr> = x\<lparr>sent := c, last_click_time := a\<rparr>
         \<Longrightarrow> y = x\<lparr>sent := sent y, last_click_time := last_click_time y\<rparr>"
  by (cases x, cases y) simp

text \<open>
  C6, as the code has it. Every exception a sink call raises inside \<^verbatim>\<open>execute_action\<close>
  is caught there, and a \<^verbatim>\<open>FailSafeException\<close> a sink call raises inside
  \<^verbatim>\<open>handle_mouse_control\<close> is caught at the call site. Such a failure is a no-op for the
  frame: the function returns, and its state equals the state after the same call with
  a sink that succeeds, except for the record of the fired event (the text buffer, the
  time of the last click and of the last right-click, the trace of delivered calls).
\<close>

theorem C6_caught_sink_failures:
  "fst (execute_action sk a k) = None
   \<and> (snd (execute_action sk a k))\<lparr>current_text := t, sent := l\<rparr>
       = (snd (execute_action (\<lambda>c. Returns) a k))\<lparr>current_text := t, sent := l\<rparr>
   \<and> (only_failsafe f \<longrightarrow>
        fst (handle_mouse_control f s) = None
        \<and> (snd (handle_mouse_control f s))\<lparr>sent := c, last_click_time := x, last_right_click_time := y\<rparr>
           = (snd (handle_mouse_control (f\<lparr>sink := (\<lambda>c. Returns)\<rparr>) s))
               \<lparr>sent := c, last_click_time := x, last_right_click_time := y\<rparr>)"
proof -
  have keyboard: "(snd (execute_action sk a k))\<lparr>current_text := t, sent := l\<rparr>
       = (snd (execute_action (\<lambda>c. Returns) a k))\<lparr>current_text := t, sent := l\<rparr>"
    by (simp only: execute_action_state)
  have mouse: "fst (handle_mouse_control f s) = None
        \<and> (snd (handle_mouse_control f s))\<lparr>sent := c, last_click_time := x, last_right_click_time := y\<rparr>
           = (snd (handle_mouse_control (f\<lparr>sink := (\<lambda>c. Returns)\<rparr>) s))
               \<lparr>sent := c, last_click_time := x, last_right_click_time := y\<rparr>"
    if g: "only_failsafe f"
  proof -
    define f' where "f' = f\<lparr>sink := (\<lambda>c. Returns)\<rparr>"
    have g': "only_failsafe f'" unfolding f'_def by (rule only_failsafe_returns)
    define m where "m = snd (move_cursor f s)"
    define m' where "m' = snd (move_cursor f' s)"
    define d where "d = snd (left_click_drag f m)"
    define d' where "d' = snd (left_click_drag f' m')"
    have 1: "m' = m\<lparr>sent := sent m'\<rparr>"
      unfolding m_def m'_def f'_def by (rule same_but_sent) (rule move_cursor_same)
    have "d'\<lparr>sent := c, last_click_time := x\<rparr> = d\<lparr>sent := c, last_click_time := x\<rparr>"
      unfolding d_def d'_def f'_def by (subst 1[unfolded f'_def]) (rule left_click_drag_same[OF g])
    then have 2: "d' = d\<lparr>sent := sent d', last_click_time := last_click_time d'\<rparr>"
      by (rule same_but_sent_click)
    have 3: "(snd (right_click f' d'))\<lparr>sent := c, last_click_time := x, last_right_click_time := y\<rparr>
         = (snd (right_click f d))\<lparr>sent := c, last_click_time := x, last_right_click_time := y\<rparr>"
      unfolding f'_def by (subst 2) (rule right_click_same[OF g])
    show ?thesis
      unfolding handle_mouse_control_guarded[OF g] handle_mouse_control_guarded[OF g', unfolded f'_def]
      using 3 by (simp add: f'_def m_def m'_def d_def d'_def)
  qed
  show ?thesis
    using execute_action_returns keyboard mouse by blast
qed

text \<open>
  The primary channel is armed; in the release frame \<^verbatim>\<open>pyautogui.click()\<close> raises an
  exception other than \<^verbatim>\<open>FailSafeException\<close>. The exception leaves
  \<^verbatim>\<open>handle_mouse_control\<close> and ends the loop of \<^verbatim>\<open>run\<close>, and \<^verbatim>\<open>pinch_active\<close> stays
  set, while a successful click clears it.
\<close>

theorem C6_counterexample:
  "fst (handle_mouse_control (failing_click (pointing (10 + 1 / 10) 50 100))
          (snd (run_frames [pointing 10 30 100] init_controller))) = Some OtherException
   \<and> pinch_active (snd (handle_mouse_control (failing_click (pointing (10 + 1 / 10) 50 100))
          (snd (run_frames [pointing 10 30 100] init_controller))))
   \<and> \<not> pinch_active (snd (handle_mouse_control (pointing (10 + 1 / 10) 50 100)
          (snd (run_frames [pointing 10 30 100] init_controller))))
   \<and> loop_body \<lparr> ret = True, hands = [failing_click (pointing (10 + 1 / 10) 50 100)], key = 255,
                   key_sink = (\<lambda>c. Returns) \<rparr>
        (snd (run_frames [pointing 10 30 100] init_controller))
      = Raised OtherException
          (snd (handle_mouse_control (failing_click (pointing (10 + 1 / 10) 50 100))
             (snd (run_frames [pointing 10 30 100] init_controller))))"
  by (simp add: pointing_def failing_click_def init_controller_def loop_body_def
      handle_mouse_control_def move_cursor_def left_click_drag_def right_click_def andthen_def
      try_failsafe_def sink_do_def smooth_cursor_position_def deque_append_def linspace_def py_int_def
      pinch_on_def pinch_off_def right_on_def right_off_def click_debounce_def drag_hold_threshold_def
      click_max_duration_def right_click_hold_threshold_def right_click_debounce_def Let_def upt_rec)

theorem C6_caught_sink_failures_witness:
  "only_failsafe (failsafe_click (pointing (10 + 1 / 10) 50 100))
   \<and> sink (failsafe_click (pointing (10 + 1 / 10) 50 100)) Click = Raises FailSafeException
   \<and> fst (handle_mouse_control (failsafe_click (pointing (10 + 1 / 10) 50 100))
          (snd (run_frames [pointing 10 30 100] init_controller))) = None
   \<and> (snd (handle_mouse_control (failsafe_click (pointing (10 + 1 / 10) 50 100))
          (snd (run_frames [pointing 10 30 100] init_controller))))
          \<lparr>sent := [], last_click_time := 0, last_right_click_time := 0\<rparr>
      = (snd (handle_mouse_control ((failsafe_click (pointing (10 + 1 / 10) 50 100))\<lparr>sink := (\<lambda>c. Returns)\<rparr>)
          (snd (run_frames [pointing 10 30 100] init_controller))))
          \<lparr>sent := [], last_click_time := 0, last_right_click_time := 0\<rparr>"
proof -
  have g: "only_failsafe (failsafe_click (pointing (10 + 1 / 10) 50 100))"
    by (simp add: only_failsafe_def failsafe_click_def)
  have r: "sink (failsafe_click (pointing (10 + 1 / 10) 50 100)) Click = Raises FailSafeException"
    by (simp add: failsafe_click_def)
  show ?thesis
    using g r C6_caught_sink_failures[where f = "failsafe_click (pointing (10 + 1 / 10) 50 100)"
        and s = "snd (run_frames [pointing 10 30 100] init_controller)" and c = "[]" and x = 0 and y = 0]
    by blast
qed


subsection \<open>C7: the one-shot Shift latch of \<^verbatim>\<open>type_key\<close>\<close>

lemma type_key_processed:
  "select_debounce \<le> clock - last_select_time s \<Longrightarrow>
   type_key clock sk lbl s = shift_applies_once lbl (type_key_body sk lbl (s\<lparr>last_select_time := clock\<rparr>))"
  by (simp add: type_key_def)

lemma shift_applies_once_clears:
  "lbl \<notin> set [''Shift'', ''Caps''] \<Longrightarrow> \<not> shift_latched (snd (shift_applies_once lbl r))"
  by (cases r) (simp add: shift_applies_once_def)

lemma shift_applies_once_sent: "sent (snd (shift_applies_once lbl r)) = sent (snd r)"
  by (cases r) (simp add: shift_applies_once_def)

text \<open>
  C7, as the code has it. For a selection that \<^verbatim>\<open>type_key\<close> processes (debounce
  elapsed) of an ASCII label: selecting Shift sets the latch; after the selection of any
  label other than Shift and Caps the latch is clear, alphabetic or not, whether the sink
  call returned or raised; selecting Caps toggles Caps and leaves the latch as it was. A
  one-letter label is typed in upper case exactly when Caps and the latch differ; any
  other one-character label is typed through the shift-substitution table when the latch
  is set and unchanged otherwise. Shift, then \<open>a\<close>, then \<open>b\<close> with Caps off, each after
  the debounce interval, types \<open>A\<close> and then \<open>b\<close>.
\<close>

theorem C7_shift_is_one_shot:
  assumes "select_debounce \<le> clock - last_select_time s" and "ascii lbl"
  shows "shift_latched (snd (type_key clock sk ''Shift'' s))
    \<and> (lbl \<notin> set [''Shift'', ''Caps''] \<longrightarrow> \<not> shift_latched (snd (type_key clock sk lbl s)))
    \<and> (lbl = ''Caps'' \<longrightarrow>
           shift_latched (snd (type_key clock sk lbl s)) = shift_latched s
           \<and> caps_lock (snd (type_key clock sk lbl s)) = (\<not> caps_lock s))
    \<and> (length lbl = 1 \<and> isalpha lbl
           \<and> sk (Typewrite (if caps_lock s \<noteq> shift_latched s then upper lbl else lower lbl)) = Returns
         \<longrightarrow> sent (snd (type_key clock sk lbl s)) =
               sent s @ [Typewrite (if caps_lock s \<noteq> shift_latched s then upper lbl else lower lbl)])
    \<and> (length lbl = 1 \<and> \<not> isalpha lbl
           \<and> sk (Typewrite (if shift_latched s then shifted_char lbl else lbl)) = Returns
         \<longrightarrow> sent (snd (type_key clock sk lbl s)) =
               sent s @ [Typewrite (if shift_latched s then shifted_char lbl else lbl)])
    \<and> sent (snd (andthen (andthen (type_key 1 (\<lambda>c. Returns) ''Shift'' init_vkeyboard)
                      (type_key 2 (\<lambda>c. Returns) ''a'')) (type_key 3 (\<lambda>c. Returns) ''b'')))
         = [Typewrite ''A'', Typewrite ''b'']"
proof -
  note p = type_key_processed[OF assms(1)]
  have latch: "shift_latched (snd (type_key clock sk ''Shift'' s))"
    by (simp add: p type_key_body_def shift_applies_once_def)
  have clear: "lbl \<notin> set [''Shift'', ''Caps''] \<longrightarrow> \<not> shift_latched (snd (type_key clock sk lbl s))"
    unfolding p using shift_applies_once_clears by blast
  have caps: "lbl = ''Caps'' \<longrightarrow>
           shift_latched (snd (type_key clock sk lbl s)) = shift_latched s
           \<and> caps_lock (snd (type_key clock sk lbl s)) = (\<not> caps_lock s)"
    by (simp add: p type_key_body_def shift_applies_once_def)
  have one: "length lbl = 1 \<Longrightarrow> lbl \<noteq> ''Backspace'' \<and> lbl \<noteq> ''Tab'' \<and> lbl \<noteq> ''Enter''
      \<and> lbl \<noteq> ''Space'' \<and> lbl \<noteq> ''Caps'' \<and> lbl \<noteq> ''Shift''
      \<and> lbl \<notin> set [''Ctrl'', ''Alt'', ''Win'', ''Menu'']"
    by auto
  have letter: "length lbl = 1 \<and> isalpha lbl
           \<and> sk (Typewrite (if caps_lock s \<noteq> shift_latched s then upper lbl else lower lbl)) = Returns
         \<longrightarrow> sent (snd (type_key clock sk lbl s)) =
               sent s @ [Typewrite (if caps_lock s \<noteq> shift_latched s then upper lbl else lower lbl)]"
  proof
    assume a: "length lbl = 1 \<and> isalpha lbl
           \<and> sk (Typewrite (if caps_lock s \<noteq> shift_latched s then upper lbl else lower lbl)) = Returns"
    from one a have b: "sent (snd (type_key_body sk lbl (s\<lparr>last_select_time := clock\<rparr>))) =
        sent s @ [Typewrite (if caps_lock s \<noteq> shift_latched s then upper lbl else lower lbl)]"
      by (simp add: type_key_body_def Let_def sink_do_snd)
    show "sent (snd (type_key clock sk lbl s)) =
               sent s @ [Typewrite (if caps_lock s \<noteq> shift_latched s then upper lbl else lower lbl)]"
      unfolding p shift_applies_once_sent by (rule b)
  qed
  have other: "length lbl = 1 \<and> \<not> isalpha lbl
           \<and> sk (Typewrite (if shift_latched s then shifted_char lbl else lbl)) = Returns
         \<longrightarrow> sent (snd (type_key clock sk lbl s)) =
               sent s @ [Typewrite (if shift_latched s then shifted_char lbl else lbl)]"
  proof
    assume a: "length lbl = 1 \<and> \<not> isalpha lbl
           \<and> sk (Typewrite (if shift_latched s then shifted_char lbl else lbl)) = Returns"
    from one a have b: "sent (snd (type_key_body sk lbl (s\<lparr>last_select_time := clock\<rparr>))) =
        sent s @ [Typewrite (if shift_latched s then shifted_char lbl else lbl)]"
      by (simp add: type_key_body_def Let_def sink_do_snd)
    show "sent (snd (type_key clock sk lbl s)) =
               sent s @ [Typewrite (if shift_latched s then shifted_char lbl else lbl)]"
      unfolding p shift_applies_once_sent by (rule b)
  qed
  have scenario: "sent (snd (andthen (andthen (type_key 1 (\<lambda>c. Returns) ''Shift'' init_vkeyboard)
                      (type_key 2 (\<lambda>c. Returns) ''a'')) (type_key 3 (\<lambda>c. Returns) ''b'')))
         = [Typewrite ''A'', Typewrite ''b'']"
    by (simp add: andthen_def type_key_def type_key_body_def shift_applies_once_def sink_do_def
        init_vkeyboard_def select_debounce_def isalpha_def upper_def lower_def ascii_uppercase_def
        ascii_lowercase_def preview_max_def Let_def)
  show ?thesis
    using latch clear caps letter other scenario by (intro conjI)
qed

text \<open>
  Shift is selected and then, after the debounce interval, Caps: the selection of Caps is
  processed (it sets \<^verbatim>\<open>last_select_time\<close> and toggles Caps), and the latch is still set.
\<close>

theorem C7_counterexample:
  "last_select_time (snd (andthen (type_key 1 (\<lambda>c. Returns) ''Shift'' init_vkeyboard)
      (type_key 2 (\<lambda>c. Returns) ''Caps''))) = 2
   \<and> caps_lock (snd (andthen (type_key 1 (\<lambda>c. Returns) ''Shift'' init_vkeyboard)
      (type_key 2 (\<lambda>c. Returns) ''Caps'')))
   \<and> shift_latched (snd (andthen (type_key 1 (\<lambda>c. Returns) ''Shift'' init_vkeyboard)
      (type_key 2 (\<lambda>c. Returns) ''Caps'')))"
  by (simp add: andthen_def type_key_def type_key_body_def shift_applies_once_def
      init_vkeyboard_def select_debounce_def)

theorem C7_shift_is_one_shot_witness:
  "shift_latched (snd (type_key 1 (\<lambda>c. Returns) ''Shift'' init_vkeyboard))
   \<and> \<not> shift_latched (snd (type_key 1 (\<lambda>c. Returns) ''1'' (init_vkeyboard\<lparr>shift_latched := True\<rparr>)))
   \<and> sent (snd (type_key 1 (\<lambda>c. Returns) ''1'' (init_vkeyboard\<lparr>shift_latched := True\<rparr>)))
       = [Typewrite ''!'']
   \<and> sent (snd (type_key 1 (\<lambda>c. Returns) ''a'' (init_vkeyboard\<lparr>shift_latched := True\<rparr>)))
       = [Typewrite ''A'']"
proof -
  have d: "select_debounce \<le> 1 - last_select_time init_vkeyboard"
    "select_debounce \<le> 1 - last_select_time (init_vkeyboard\<lparr>shift_latched := True\<rparr>)"
    by (simp_all add: select_debounce_def init_vkeyboard_def)
  have a: "ascii ''1''" "ascii ''a''"
    by (simp_all add: ascii_def)
  have f: "\<not> isalpha ''1''" "isalpha ''a''" "shifted_char ''1'' = ''!''" "upper ''a'' = ''A''"
    by (simp_all add: isalpha_def shifted_char_def shift_map_def upper_def ascii_uppercase_def ascii_lowercase_def)
  have i: "sent init_vkeyboard = []" "\<not> caps_lock init_vkeyboard"
    by (simp_all add: init_vkeyboard_def)
  show ?thesis
    using C7_shift_is_one_shot[OF d(1) a(1), of "\<lambda>c. Returns"]
      C7_shift_is_one_shot[OF d(2) a(1), of "\<lambda>c. Returns"]
      C7_shift_is_one_shot[OF d(2) a(2), of "\<lambda>c. Returns"] f i
    by simp
qed


subsection \<open>C8: the cadence of dwell selection\<close>






subsection \<open>C9: the cycle of the typing modes\<close>

text \<open>
  C9, as the code has it. Each mode change advances the typing mode by exactly one step
  through the cycle LETTERS, NUMBERS, SYMBOLS, ACTIONS, LETTERS of the four elements of
  \<^verbatim>\<open>self.modes\<close>: in a state whose \<^verbatim>\<open>current_mode\<close> is the entry of \<^verbatim>\<open>modes\<close> at
  \<^verbatim>\<open>mode_index\<close>, \<^verbatim>\<open>change_mode\<close> yields the next mode of that cycle and keeps the two
  fields in step. A two-hands-open gesture that starts after the cooldown of 2 s (frame
  \<open>f0\<close>) and is sustained over any further frames within 2 s of the switch (frames \<open>rest\<close>)
  advances the mode by exactly one such step.
\<close>

theorem C9_mode_cycle_of_four:
  assumes "mode_index s < length modes" and "current_mode s = modes ! mode_index s"
  shows "current_mode (change_mode s) = next_mode (current_mode s)
         \<and> mode_index (change_mode s) < length modes
         \<and> current_mode (change_mode s) = modes ! mode_index (change_mode s)
         \<and> (\<forall>f0 rest.
               both_hands_open f0 \<and> 2 < clock_mode_check f0 - last_gesture_time s
               \<and> (\<forall>f \<in> set rest. both_hands_open f \<and> clock_mode_check f - clock_mode_set f0 \<le> 2)
               \<longrightarrow> fst (run_keyboard_frames (f0 # rest) s) = None
                   \<and> current_mode (snd (run_keyboard_frames (f0 # rest) s)) = next_mode (current_mode s)
                   \<and> mode_index (snd (run_keyboard_frames (f0 # rest) s)) = (mode_index s + 1) mod 4)"
proof -
  have idx: "mode_index s = 0 \<or> mode_index s = 1 \<or> mode_index s = 2 \<or> mode_index s = 3"
    using assms(1) by (auto simp: modes_def)
  have step: "modes ! ((mode_index s + 1) mod 4) = next_mode (current_mode s)"
    using idx assms(2) by (elim disjE) (simp_all add: modes_def next_mode_def)
  have a: "current_mode (change_mode s) = next_mode (current_mode s)"
    using step by (simp add: change_mode_fields)
  have b: "mode_index (change_mode s) < length modes"
    by (simp add: change_mode_fields modes_def)
  have c: "current_mode (change_mode s) = modes ! mode_index (change_mode s)"
    by (simp add: change_mode_fields)
  have d: "fst (run_keyboard_frames (f0 # rest) s) = None
           \<and> current_mode (snd (run_keyboard_frames (f0 # rest) s)) = next_mode (current_mode s)
           \<and> mode_index (snd (run_keyboard_frames (f0 # rest) s)) = (mode_index s + 1) mod 4"
    if o: "both_hands_open f0" and late: "2 < clock_mode_check f0 - last_gesture_time s"
      and r: "\<forall>f \<in> set rest. both_hands_open f \<and> clock_mode_check f - clock_mode_set f0 \<le> 2"
    for f0 rest
  proof -
    define t where "t = snd (keyboard_frame f0 s)"
    have 1: "fst (keyboard_frame f0 s) = None" "mode_index t = (mode_index s + 1) mod 4"
      "current_mode t = next_mode (current_mode s)" "last_gesture_time t = clock_mode_set f0"
      using late step by (simp_all add: t_def keyboard_frame_both_hands_open[OF o])
    have "\<forall>f \<in> set rest. both_hands_open f \<and> clock_mode_check f - last_gesture_time t \<le> 2"
      using r 1(4) by simp
    from both_hands_open_cooldown[OF this] show ?thesis
      using 1 by (simp add: andthen_fst andthen_snd t_def[symmetric])
  qed
  show ?thesis using a b c d by blast
qed

text \<open>From NUMBERS a mode change leads to SYMBOLS, not to ACTIONS.\<close>

theorem C9_counterexample:
  "current_mode (change_mode init_keyboard) = ''NUMBERS''
   \<and> current_mode (change_mode (change_mode init_keyboard)) = ''SYMBOLS''
   \<and> current_mode (change_mode (change_mode init_keyboard)) \<noteq> ''ACTIONS''"
  by (simp add: change_mode_def init_keyboard_def modes_def Let_def)

theorem C9_mode_cycle_witness:
  "current_mode (change_mode init_keyboard) = ''NUMBERS''
   \<and> fst (run_keyboard_frames
        [seen 10 [shown_hand 5 (1 / 2) (1 / 2), shown_hand 5 (1 / 5) (1 / 2)],
         seen 11 [shown_hand 5 (1 / 2) (1 / 2), shown_hand 5 (1 / 5) (1 / 2)]] init_keyboard) = None
   \<and> current_mode (snd (run_keyboard_frames
        [seen 10 [shown_hand 5 (1 / 2) (1 / 2), shown_hand 5 (1 / 5) (1 / 2)],
         seen 11 [shown_hand 5 (1 / 2) (1 / 2), shown_hand 5 (1 / 5) (1 / 2)]] init_keyboard)) = ''NUMBERS''"
proof -
  have m: "mode_index init_keyboard < length modes"
    "current_mode init_keyboard = modes ! mode_index init_keyboard"
    by (simp_all add: init_keyboard_def modes_def)
  have o: "both_hands_open (seen t [shown_hand 5 (1 / 2) (1 / 2), shown_hand 5 (1 / 5) (1 / 2)])" for t
    by (simp add: both_hands_open_def seen_def count_fingers_shown_hand)
  have n: "next_mode (current_mode init_keyboard) = ''NUMBERS''"
    by (simp add: next_mode_def init_keyboard_def)
  have "both_hands_open (seen 10 [shown_hand 5 (1 / 2) (1 / 2), shown_hand 5 (1 / 5) (1 / 2)])
        \<and> 2 < clock_mode_check (seen 10 [shown_hand 5 (1 / 2) (1 / 2), shown_hand 5 (1 / 5) (1 / 2)])
              - last_gesture_time init_keyboard
        \<and> (\<forall>f \<in> set [seen 11 [shown_hand 5 (1 / 2) (1 / 2), shown_hand 5 (1 / 5) (1 / 2)]].
              both_hands_open f
              \<and> clock_mode_check f
                  - clock_mode_set (seen 10 [shown_hand 5 (1 / 2) (1 / 2), shown_hand 5 (1 / 5) (1 / 2)]) \<le> 2)"
    using o by (simp add: seen_def init_keyboard_def)
  then show ?thesis
    using C9_mode_cycle_of_four[OF m] n by simp
qed


subsection \<open>C10: a frame without hands\<close>




end
